theory Spec2Isabelle
  imports Complex_Main "HOL-Library.Log_Nat"
begin

section \<open>JavaScript values reaching the handlers\<close>

text \<open>
  A JavaScript string is modelled as a \<^typ>\<open>string\<close>: a list of code units below 256
  (the Latin-1 range of UTF-16). A number is the real it denotes; where the source
  computes with numbers (the code generator), every operation is rounded to binary64;
  times in seconds and milliseconds are integers, which binary64 holds exactly.
  \<open>bodyParser.json()\<close> hands the handlers an object of
  arbitrary JSON values, so a body field is a \<open>json\<close>; a field missing from the body is
  \<open>JUndefined\<close>.
\<close>

datatype json =
    JUndefined
  | JNull
  | JBool bool
  | JNum real
  | JStr string
  | JArr "json list"
  | JObj "(string \<times> json) list"

text \<open>The exceptions the handlers can see, by \<open>err.name\<close>.\<close>

datatype exn =
    Error
  | TypeError
  | SequelizeUniqueConstraintError
  | SequelizeDatabaseError
  | RedisError
  | JsonWebTokenError
  | TokenExpiredError
  | NotBeforeError
  | MailError

text \<open>\<open>!v\<close> is false exactly for the truthy values.\<close>

fun truthy :: "json \<Rightarrow> bool" where
  "truthy JUndefined = False"
| "truthy JNull = False"
| "truthy (JBool b) = b"
| "truthy (JNum n) = (n \<noteq> 0)"
| "truthy (JStr s) = (s \<noteq> [])"
| "truthy (JArr xs) = True"
| "truthy (JObj kvs) = True"

text \<open>White space and line terminators of ECMAScript below code unit 256: the set
  that both \<open>\s\<close> and \<open>String.prototype.trim\<close> use.\<close>

definition isWhiteSpace :: "char \<Rightarrow> bool" where
  "isWhiteSpace c =
     (c \<in> set [CHR 0x09, CHR 0x0A, CHR 0x0B, CHR 0x0C, CHR 0x0D, CHR 0x20, CHR 0xA0])"

definition trim :: "string \<Rightarrow> string" where
  "trim s = rev (dropWhile isWhiteSpace (rev (dropWhile isWhiteSpace s)))"

definition toLowerCase_char :: "char \<Rightarrow> char" where
  "toLowerCase_char c =
     (let n = (of_char c :: nat) in
      if (65 \<le> n \<and> n \<le> 90) \<or> (192 \<le> n \<and> n \<le> 222 \<and> n \<noteq> 215)
      then char_of (n + 32) else c)"

definition toLowerCase :: "string \<Rightarrow> string" where
  "toLowerCase s = map toLowerCase_char s"

definition startsWith :: "string \<Rightarrow> string \<Rightarrow> bool" where
  "startsWith s p = (take (length p) s = p)"

text \<open>\<open>v.trim()\<close> on a body field: only a string has the method; on any other truthy
  value the call throws a TypeError.\<close>

fun js_trim :: "json \<Rightarrow> exn + string" where
  "js_trim (JStr s) = Inr (trim s)"
| "js_trim v = Inl TypeError"

text \<open>\<open>email.trim().toLowerCase()\<close>.\<close>

definition normalizeEmail :: "json \<Rightarrow> exn + string" where
  "normalizeEmail v = (case js_trim v of Inl e \<Rightarrow> Inl e | Inr t \<Rightarrow> Inr (toLowerCase t))"

subsection \<open>Regular expressions\<close>

text \<open>The three regular expressions of the source are matched by derivatives. All three
  are anchored at both ends, so \<open>test\<close> is a match of the whole string.\<close>

datatype rexp =
    Zero
  | One
  | Atom "char \<Rightarrow> bool"
  | Alt rexp rexp
  | Times rexp rexp
  | Star rexp

fun nullable :: "rexp \<Rightarrow> bool" where
  "nullable Zero = False"
| "nullable One = True"
| "nullable (Atom p) = False"
| "nullable (Alt r s) = (nullable r \<or> nullable s)"
| "nullable (Times r s) = (nullable r \<and> nullable s)"
| "nullable (Star r) = True"

fun deriv :: "char \<Rightarrow> rexp \<Rightarrow> rexp" where
  "deriv c Zero = Zero"
| "deriv c One = Zero"
| "deriv c (Atom p) = (if p c then One else Zero)"
| "deriv c (Alt r s) = Alt (deriv c r) (deriv c s)"
| "deriv c (Times r s) =
     (if nullable r then Alt (Times (deriv c r) s) (deriv c s) else Times (deriv c r) s)"
| "deriv c (Star r) = Times (deriv c r) (Star r)"

fun derivs :: "string \<Rightarrow> rexp \<Rightarrow> rexp" where
  "derivs [] r = r"
| "derivs (c # cs) r = derivs cs (deriv c r)"

definition test :: "rexp \<Rightarrow> string \<Rightarrow> bool" where
  "test r s = nullable (derivs s r)"

definition OneOrMore :: "rexp \<Rightarrow> rexp" where
  "OneOrMore r = Times r (Star r)"

definition isDigit :: "char \<Rightarrow> bool" where
  "isDigit c = (c \<in> set ''0123456789'')"

text \<open>\<open>/^[^\s@]+@[^\s@]+\.[^\s@]+$/\<close>\<close>

definition emailRegex :: rexp where
  "emailRegex =
     (let part = OneOrMore (Atom (\<lambda>c. \<not> isWhiteSpace c \<and> c \<noteq> CHR ''@'')) in
      Times part (Times (Atom (\<lambda>c. c = CHR ''@''))
        (Times part (Times (Atom (\<lambda>c. c = CHR ''.'')) part))))"

text \<open>\<open>/^\d{6}$/\<close>\<close>

definition codeRegex :: rexp where
  "codeRegex =
     Times (Atom isDigit) (Times (Atom isDigit) (Times (Atom isDigit)
       (Times (Atom isDigit) (Times (Atom isDigit) (Atom isDigit)))))"

section \<open>Code generator\<close>

definition digit_char :: "nat \<Rightarrow> char" where
  "digit_char d = ''0123456789'' ! d"

fun toString_nat :: "nat \<Rightarrow> string" where
  "toString_nat n =
     (if n < 10 then [digit_char n]
      else toString_nat (n div 10) @ [digit_char (n mod 10)])"

declare toString_nat.simps [simp del]

text \<open>\<open>Number.prototype.toString\<close> on an integer-valued number of magnitude below
  \<open>10^21\<close> (larger ones print with an exponent and are outside the model).\<close>

definition toString :: "int \<Rightarrow> string" where
  "toString i = (if i < 0 then CHR ''-'' # toString_nat (nat (- i)) else toString_nat (nat i))"

subsection \<open>Binary64 arithmetic\<close>

text \<open>
  A JavaScript number is an IEEE 754 binary64 value, and each arithmetic operation returns
  the exact result rounded to the nearest such value, ties to the even significand.
  \<open>exponent x\<close> is the binary exponent of a positive \<open>x\<close> (\<open>2 ^ exponent x \<le> x < 2 ^ (exponent x + 1)\<close>);
  \<open>fl\<close> rounds to a multiple of \<open>2 ^ (exponent x - 52)\<close>, or of \<open>2 ^ - 1074\<close> in the subnormal
  range. Overflow to infinity (magnitudes from \<open>2 ^ 1024\<close> on) is not modelled; a number is
  a binary64 value when \<open>fl\<close> leaves it unchanged.
\<close>

definition roundTiesToEven :: "real \<Rightarrow> int" where
  "roundTiesToEven z =
     (let f = \<lfloor>z\<rfloor>; d = z - of_int f in
      if d < 1 / 2 then f
      else if 1 / 2 < d then f + 1
      else if even f then f else f + 1)"

definition exponent :: "real \<Rightarrow> int" where
  "exponent x = (if 1 \<le> x then bitlen \<lfloor>x\<rfloor> - 1 else - bitlen (\<lceil>1 / x\<rceil> - 1))"

definition fl :: "real \<Rightarrow> real" where
  "fl x =
     (if x = 0 then 0
      else let e = max (exponent \<bar>x\<bar> - 52) (- 1074)
           in sgn x * (of_int (roundTiesToEven (\<bar>x\<bar> / 2 powi e)) * 2 powi e))"

subsection \<open>\<open>genCode\<close>\<close>

text \<open>
  \<^verbatim>\<open>function genCode(len = 6) {
    const min = Math.pow(10, len - 1);
    const max = Math.pow(10, len) - 1;
    return Math.floor(min + Math.random() * (max - min + 1)).toString(); }\<close>
  The value of \<open>Math.random()\<close> is the first argument, a binary64 value in \<open>[0, 1)\<close>.
  \<open>Math.pow\<close> is taken to return the rounded power; every subtraction, addition and
  multiplication is rounded.
\<close>

definition genCode_number :: "real \<Rightarrow> int \<Rightarrow> int" where
  "genCode_number rnd len =
     (let min = fl (10 powi (len - 1));
          max = fl (fl (10 powi len) - 1)
      in \<lfloor>fl (min + fl (rnd * fl (fl (max - min) + 1)))\<rfloor>)"

definition genCode :: "real \<Rightarrow> int \<Rightarrow> string" where
  "genCode rnd len = toString (genCode_number rnd len)"

text \<open>Reading a decimal string back: used to show that \<open>toString_nat\<close> is injective.\<close>

definition digit_value :: "char \<Rightarrow> nat" where
  "digit_value c = of_char c - 48"

definition read_decimal :: "string \<Rightarrow> nat" where
  "read_decimal s = foldl (\<lambda>a c. 10 * a + digit_value c) 0 s"

section \<open>Input validation\<close>

text \<open>
  \<^verbatim>\<open>function isValidEmail(email) {
    if (!email || typeof email !== 'string') return false;
    if (!emailRegex.test(email)) return false;
    if (email.length > 254) return false;
    const localPart = email.split('@')[0];
    if (localPart.length > 64) return false;
    return true; }\<close>
\<close>

fun isValidEmail :: "json \<Rightarrow> bool" where
  "isValidEmail (JStr s) =
     (if s = [] then False
      else if \<not> test emailRegex s then False
      else if length s > 254 then False
      else if length (takeWhile (\<lambda>c. c \<noteq> CHR ''@'') s) > 64 then False
      else True)"
| "isValidEmail v = False"

text \<open>\<open>v.length\<close> on a truthy body field.\<close>

fun js_length :: "json \<Rightarrow> json" where
  "js_length (JStr s) = JNum (real (length s))"
| "js_length (JArr xs) = JNum (real (length xs))"
| "js_length (JObj kvs) = (case map_of kvs ''length'' of Some v \<Rightarrow> v | None \<Rightarrow> JUndefined)"
| "js_length v = JUndefined"

text \<open>\<open>v >= 6\<close>. The comparison converts \<open>v\<close> to a number; the conversion of strings,
  arrays and objects belongs to the JavaScript runtime and is the parameter \<open>toNum\<close>
  (\<open>None\<close> is NaN).\<close>

fun ge6 :: "(json \<Rightarrow> real option) \<Rightarrow> json \<Rightarrow> bool" where
  "ge6 toNum JUndefined = False"
| "ge6 toNum JNull = False"
| "ge6 toNum (JBool b) = False"
| "ge6 toNum (JNum n) = (6 \<le> n)"
| "ge6 toNum v = (case toNum v of None \<Rightarrow> False | Some n \<Rightarrow> 6 \<le> n)"

text \<open>\<^verbatim>\<open>function isValidPassword(password) { return password && password.length >= 6; }\<close>
  as the condition of an \<open>if\<close>.\<close>

definition isValidPassword :: "(json \<Rightarrow> real option) \<Rightarrow> json \<Rightarrow> bool" where
  "isValidPassword toNum password = (truthy password \<and> ge6 toNum (js_length password))"

section \<open>Stores, collaborators and the environment of one request\<close>

text \<open>A row of the table \<open>users\<close> (\<open>models/user.js\<close>); \<open>user_id\<close> is the primary key \<open>id\<close>.
  The two timestamp columns play no part in the routes and are left out.\<close>

record user =
  user_id :: nat
  email :: string
  password_hash :: string
  verified :: bool

text \<open>The claims of a session token. The only signer in the repository is \<open>login\<close>,
  which sets \<open>jti\<close> to a uuid string; a claim that is absent is \<open>None\<close>.\<close>

record claims =
  c_sub :: nat
  c_email :: string
  c_jti :: "string option"
  c_iat :: "int option"
  c_exp :: "int option"

text \<open>\<open>config.js\<close>: the three lifetimes in seconds, and the token lifetime
  \<open>jwtExpiresIn\<close> already converted to seconds.\<close>

record config =
  verifTtl :: int
  resetTtl :: int
  tokenTtlSeconds :: int
  jwtExpiresIn :: int

text \<open>Every call that leaves the process is recorded, in call order.\<close>

datatype event =
    RedisGet string
  | RedisSetEx string int string
  | RedisDel string
  | Transaction
  | FindOne string
  | Create string
  | Save user
  | Commit
  | Rollback
  | BcryptHash
  | BcryptCompare
  | JwtVerify
  | JwtSign
  | SendVerificationCode string string
  | SendResetCode string string
  | SendMail string string
  | ConsoleError string

text \<open>
  The durable table \<open>users\<close>, the ephemeral store \<open>kv\<close> (each key with its value and
  the second at which it expires), the mails handed to the transport, the mailer's
  \<open>transporterVerified\<close> flag, and the record of calls.
\<close>

record world =
  users :: "user list"
  kv :: "string \<rightharpoonup> (string \<times> int)"
  outbox :: "(string \<times> string \<times> string) list"
  transporterVerified :: bool
  trace :: "event list"

datatype op =
    OpRedisGet | OpRedisSetEx | OpRedisDel
  | OpTransaction | OpFindOne | OpCreate | OpCreateUnique | OpSave | OpCommit | OpRollback
  | OpSendMail

text \<open>The exception an external call throws when it fails. \<open>OpCreateUnique\<close> stands for
  the unique index on \<open>email\<close> rejecting an insert.\<close>

fun error_of :: "op \<Rightarrow> exn" where
  "error_of OpRedisGet = RedisError"
| "error_of OpRedisSetEx = RedisError"
| "error_of OpRedisDel = RedisError"
| "error_of OpCreateUnique = SequelizeUniqueConstraintError"
| "error_of OpSendMail = MailError"
| "error_of opn = SequelizeDatabaseError"

text \<open>
  What the outside does during one request: the clock, \<open>Math.random()\<close>, \<open>uuidv4()\<close>,
  which external calls fail (\<open>fault\<close>), and the library primitives the handlers treat
  as opaque: bcrypt (\<open>None\<close> when the call rejects, which the library does for data that
  is not a string), the signature check and encoding of jsonwebtoken, and the runtime's
  number conversion.
\<close>

record env =
  now_ms :: int
  random :: real
  uuidv4 :: string
  fault :: "op \<Rightarrow> bool"
  bcrypt_hash :: "json \<Rightarrow> string option"
  bcrypt_compare :: "json \<Rightarrow> string \<Rightarrow> bool option"
  jwt_decode :: "string \<Rightarrow> exn + claims"
  jwt_encode :: "claims \<Rightarrow> string"
  toNumber :: "json \<Rightarrow> real option"

text \<open>\<open>Math.floor(Date.now() / 1000)\<close>\<close>

definition now :: "env \<Rightarrow> int" where
  "now E = now_ms E div 1000"

subsection \<open>Computations that may throw\<close>

type_synonym 'a io = "world \<Rightarrow> (exn + 'a) \<times> world"

definition ret :: "'a \<Rightarrow> 'a io" where
  "ret x = (\<lambda>w. (Inr x, w))"

definition throw :: "exn \<Rightarrow> 'a io" where
  "throw e = (\<lambda>w. (Inl e, w))"

definition lift :: "exn + 'a \<Rightarrow> 'a io" where
  "lift r = (\<lambda>w. (r, w))"

text \<open>\<open>try { x = m } catch (e) { h e }; k x\<close>: the handler guards \<open>m\<close> only.\<close>

definition attempt :: "'a io \<Rightarrow> ('a \<Rightarrow> 'b io) \<Rightarrow> (exn \<Rightarrow> 'b io) \<Rightarrow> 'b io" where
  "attempt m k h = (\<lambda>w. case m w of (Inl e, w') \<Rightarrow> h e w' | (Inr x, w') \<Rightarrow> k x w')"

definition bind :: "'a io \<Rightarrow> ('a \<Rightarrow> 'b io) \<Rightarrow> 'b io" where
  "bind m k = attempt m k throw"

text \<open>\<open>try { m } catch (e) { h e }\<close>\<close>

definition catch :: "'a io \<Rightarrow> (exn \<Rightarrow> 'a io) \<Rightarrow> 'a io" where
  "catch m h = attempt m ret h"

definition emit :: "event \<Rightarrow> world \<Rightarrow> world" where
  "emit ev w = w\<lparr>trace := trace w @ [ev]\<rparr>"

definition console_error :: "string \<Rightarrow> unit io" where
  "console_error msg = (\<lambda>w. (Inr (), emit (ConsoleError msg) w))"

text \<open>An external call: it is recorded, throws if the environment makes it fail, and
  otherwise has its effect.\<close>

definition call :: "env \<Rightarrow> op \<Rightarrow> event \<Rightarrow> (world \<Rightarrow> 'a \<times> world) \<Rightarrow> 'a io" where
  "call E opn ev run =
     (\<lambda>w. let w1 = emit ev w in
          if fault E opn then (Inl (error_of opn), w1)
          else (case run w1 of (x, w2) \<Rightarrow> (Inr x, w2)))"

subsection \<open>The ephemeral store\<close>

definition redis_get :: "env \<Rightarrow> string \<Rightarrow> string option io" where
  "redis_get E key =
     call E OpRedisGet (RedisGet key)
       (\<lambda>w. (case kv w key of
                None \<Rightarrow> None
              | Some (v, expiry) \<Rightarrow> if now E < expiry then Some v else None, w))"

definition redis_setEx :: "env \<Rightarrow> string \<Rightarrow> int \<Rightarrow> string \<Rightarrow> unit io" where
  "redis_setEx E key ttl v =
     call E OpRedisSetEx (RedisSetEx key ttl v)
       (\<lambda>w. ((), w\<lparr>kv := (kv w)(key \<mapsto> (v, now E + ttl))\<rparr>))"

definition redis_del :: "env \<Rightarrow> string \<Rightarrow> unit io" where
  "redis_del E key =
     call E OpRedisDel (RedisDel key) (\<lambda>w. ((), w\<lparr>kv := (kv w)(key := None)\<rparr>))"

subsection \<open>The durable store\<close>

text \<open>A transaction is a working copy of the table: writes under the transaction change
  the copy, \<open>commit\<close> installs it, and a transaction that is rolled back or whose commit
  fails leaves the table as it was.\<close>

definition transaction :: "env \<Rightarrow> user list io" where
  "transaction E = call E OpTransaction Transaction (\<lambda>w. (users w, w))"

definition findOne :: "env \<Rightarrow> user list option \<Rightarrow> string \<Rightarrow> user option io" where
  "findOne E t em =
     call E OpFindOne (FindOne em)
       (\<lambda>w. (find (\<lambda>u. email u = em) (case t of None \<Rightarrow> users w | Some rows \<Rightarrow> rows), w))"

definition next_id :: "user list \<Rightarrow> nat" where
  "next_id rows = Suc (fold max (map user_id rows) 0)"

definition create :: "env \<Rightarrow> user list \<Rightarrow> string \<Rightarrow> string \<Rightarrow> user list io" where
  "create E rows em h =
     (\<lambda>w. let w1 = emit (Create em) w in
          if fault E OpCreate then (Inl (error_of OpCreate), w1)
          else if fault E OpCreateUnique \<or> em \<in> set (map email rows)
          then (Inl SequelizeUniqueConstraintError, w1)
          else (Inr (rows @ [\<lparr>user_id = next_id rows, email = em,
                              password_hash = h, verified = False\<rparr>]), w1))"

definition save :: "env \<Rightarrow> user list \<Rightarrow> user \<Rightarrow> user list io" where
  "save E rows u =
     call E OpSave (Save u)
       (\<lambda>w. (map (\<lambda>x. if user_id x = user_id u then u else x) rows, w))"

definition commit :: "env \<Rightarrow> user list \<Rightarrow> unit io" where
  "commit E rows = call E OpCommit Commit (\<lambda>w. ((), w\<lparr>users := rows\<rparr>))"

definition rollback :: "env \<Rightarrow> unit io" where
  "rollback E = call E OpRollback Rollback (\<lambda>w. ((), w))"

subsection \<open>bcrypt and jsonwebtoken\<close>

definition hash :: "env \<Rightarrow> json \<Rightarrow> string io" where
  "hash E password =
     (\<lambda>w. (case bcrypt_hash E password of None \<Rightarrow> Inl Error | Some h \<Rightarrow> Inr h,
           emit BcryptHash w))"

definition compare :: "env \<Rightarrow> json \<Rightarrow> string \<Rightarrow> bool io" where
  "compare E password h =
     (\<lambda>w. (case bcrypt_compare E password h of None \<Rightarrow> Inl Error | Some b \<Rightarrow> Inr b,
           emit BcryptCompare w))"

text \<open>\<open>jwt.verify(token, secret, { ignoreExpiration })\<close>: the signature check and decoding
  are \<open>jwt_decode\<close>; a decoded token whose \<open>exp\<close> is not after the clock is rejected
  unless expiry is ignored.\<close>

definition verify :: "env \<Rightarrow> bool \<Rightarrow> string \<Rightarrow> claims io" where
  "verify E ignoreExpiration token =
     (\<lambda>w. (case jwt_decode E token of
              Inl e \<Rightarrow> Inl e
            | Inr payload \<Rightarrow>
                (case c_exp payload of
                   None \<Rightarrow> Inr payload
                 | Some e \<Rightarrow>
                     if \<not> ignoreExpiration \<and> e \<le> now E then Inl TokenExpiredError
                     else Inr payload),
            emit JwtVerify w))"

definition sign :: "config \<Rightarrow> env \<Rightarrow> claims \<Rightarrow> string io" where
  "sign C E payload =
     (\<lambda>w. (Inr (jwt_encode E (payload\<lparr>c_iat := Some (now E),
                                       c_exp := Some (now E + jwtExpiresIn C)\<rparr>)),
            emit JwtSign w))"

subsection \<open>The mailer\<close>

definition mailer_isValidEmail :: "string \<Rightarrow> bool" where
  "mailer_isValidEmail s = test emailRegex s"

definition sendMail :: "env \<Rightarrow> string \<Rightarrow> string \<Rightarrow> string \<Rightarrow> unit io" where
  "sendMail E toEmail subject code =
     call E OpSendMail (SendMail toEmail subject)
       (\<lambda>w. ((), w\<lparr>outbox := outbox w @ [(toEmail, subject, code)]\<rparr>))"

definition sendVerificationCode :: "env \<Rightarrow> string \<Rightarrow> string \<Rightarrow> unit io" where
  "sendVerificationCode E toEmail code =
     (\<lambda>w. let w1 = emit (SendVerificationCode toEmail code) w in
          if \<not> mailer_isValidEmail toEmail then (Inl Error, w1)
          else if \<not> transporterVerified w1 then (Inl Error, w1)
          else catch (sendMail E toEmail ''Your verification code'' code)
                 (\<lambda>err. bind (console_error ''SMTP: Failed to send verification code:'')
                          (\<lambda>_. throw err)) w1)"

definition sendResetCode :: "env \<Rightarrow> string \<Rightarrow> string \<Rightarrow> unit io" where
  "sendResetCode E toEmail code =
     (\<lambda>w. let w1 = emit (SendResetCode toEmail code) w in
          if \<not> mailer_isValidEmail toEmail then (Inl Error, w1)
          else if \<not> transporterVerified w1 then (Inl Error, w1)
          else catch (sendMail E toEmail ''Your password reset code'' code)
                 (\<lambda>err. bind (console_error ''SMTP: Failed to send reset code:'')
                          (\<lambda>_. throw err)) w1)"

section \<open>Responses\<close>

type_synonym response = "nat \<times> json"

definition errorResponse :: "nat \<Rightarrow> string \<Rightarrow> response" where
  "errorResponse statusCode message = (statusCode, JObj [(''error'', JStr message)])"

definition ok_response :: response where
  "ok_response = (200, JObj [(''ok'', JBool True)])"

definition ok_message :: "string \<Rightarrow> response" where
  "ok_message message = (200, JObj [(''ok'', JBool True), (''message'', JStr message)])"

section \<open>The routes of \<open>routes/auth.js\<close>\<close>

text \<open>Each handler takes the body fields (or the \<open>Authorization\<close> header) and runs in
  the world; its value is the response sent.\<close>

subsection \<open>\<open>POST /register/request\<close>\<close>

definition register_request :: "config \<Rightarrow> env \<Rightarrow> json \<Rightarrow> json \<Rightarrow> response io" where
  "register_request C E em password =
     catch
       (if \<not> truthy em \<or> \<not> truthy password
        then ret (errorResponse 400 ''email and password required'')
        else bind (lift (normalizeEmail em)) (\<lambda>normalizedEmail.
          if \<not> isValidEmail (JStr normalizedEmail)
          then ret (errorResponse 400 ''invalid email format'')
          else if \<not> isValidPassword (toNumber E) password
          then ret (errorResponse 400 ''password must be at least 6 characters'')
          else bind (transaction E) (\<lambda>t.
            catch
              (bind (findOne E (Some t) normalizedEmail) (\<lambda>existing.
                 case existing of
                   Some u \<Rightarrow>
                     bind (rollback E) (\<lambda>_.
                       ret (errorResponse 400 ''email already registered''))
                 | None \<Rightarrow>
                     bind (hash E password) (\<lambda>h.
                     bind (create E t normalizedEmail h) (\<lambda>t'.
                       let code = genCode (random E) 6;
                           key = ''verif_'' @ normalizedEmail
                       in attempt (redis_setEx E key (verifTtl C) code)
                            (\<lambda>_. bind (commit E t') (\<lambda>_.
                               attempt (sendVerificationCode E normalizedEmail code)
                                 (\<lambda>_. ret (ok_message ''verification code sent to email''))
                                 (\<lambda>err.
                                    bind (console_error ''SMTP: Failed to send verification code:'')
                                      (\<lambda>_. ret (ok_message ''verification code sent to email'')))))
                            (\<lambda>redisErr.
                               bind (rollback E) (\<lambda>_.
                               bind (console_error ''Redis error in register request:'') (\<lambda>_.
                                 ret (errorResponse 500 ''Failed to store verification code''))))))))
              (\<lambda>err. bind (rollback E) (\<lambda>_. throw err)))))
       (\<lambda>err.
          if err = SequelizeUniqueConstraintError
          then ret (errorResponse 400 ''email already registered'')
          else bind (console_error ''Register request error:'') (\<lambda>_.
                 ret (errorResponse 500 ''internal server error'')))"

subsection \<open>\<open>POST /register/verify\<close>\<close>

definition register_verify :: "env \<Rightarrow> json \<Rightarrow> json \<Rightarrow> response io" where
  "register_verify E em code =
     catch
       (if \<not> truthy em \<or> \<not> truthy code
        then ret (errorResponse 400 ''email and code required'')
        else bind (lift (normalizeEmail em)) (\<lambda>normalizedEmail.
          if \<not> isValidEmail (JStr normalizedEmail)
          then ret (errorResponse 400 ''invalid email format'')
          else bind (lift (js_trim code)) (\<lambda>trimmed.
            if \<not> test codeRegex trimmed
            then ret (errorResponse 400 ''invalid code format'')
            else
              let key = ''verif_'' @ normalizedEmail in
              attempt (redis_get E key)
                (\<lambda>saved.
                   if saved = None \<or> saved = Some []
                   then ret (errorResponse 400 ''code expired or not found'')
                   else bind (lift (js_trim code)) (\<lambda>trimmed'.
                     if saved \<noteq> Some trimmed'
                     then ret (errorResponse 400 ''invalid code'')
                     else bind (findOne E None normalizedEmail) (\<lambda>found.
                       case found of
                         None \<Rightarrow> ret (errorResponse 404 ''user not found'')
                       | Some u \<Rightarrow>
                           if verified u
                           then attempt (redis_del E key)
                                  (\<lambda>_. ret ok_response)
                                  (\<lambda>redisErr. ret ok_response)
                           else bind (transaction E) (\<lambda>t.
                             catch
                               (bind (save E t (u\<lparr>verified := True\<rparr>)) (\<lambda>t'.
                                  attempt (redis_del E key)
                                    (\<lambda>_. bind (commit E t') (\<lambda>_. ret ok_response))
                                    (\<lambda>redisErr.
                                       bind (console_error
                                               ''Redis error deleting verification code:'') (\<lambda>_.
                                       bind (commit E t') (\<lambda>_. ret ok_response)))))
                               (\<lambda>err. bind (rollback E) (\<lambda>_. throw err))))))
                (\<lambda>redisErr.
                   bind (console_error ''Redis error in register verify:'') (\<lambda>_.
                     ret (errorResponse 500 ''Failed to verify code''))))))
       (\<lambda>err.
          bind (console_error ''Register verify error:'') (\<lambda>_.
            ret (errorResponse 500 ''internal server error'')))"

subsection \<open>\<open>POST /login\<close>\<close>

definition login :: "config \<Rightarrow> env \<Rightarrow> json \<Rightarrow> json \<Rightarrow> response io" where
  "login C E em password =
     catch
       (if \<not> truthy em \<or> \<not> truthy password
        then ret (errorResponse 400 ''email and password required'')
        else bind (lift (normalizeEmail em)) (\<lambda>normalizedEmail.
          if \<not> isValidEmail (JStr normalizedEmail)
          then ret (errorResponse 400 ''invalid email format'')
          else bind (findOne E None normalizedEmail) (\<lambda>found.
            case found of
              None \<Rightarrow> ret (errorResponse 400 ''invalid credentials'')
            | Some u \<Rightarrow>
                if \<not> verified u
                then ret (errorResponse 403 ''email not verified'')
                else bind (compare E password (password_hash u)) (\<lambda>matched.
                  if \<not> matched
                  then ret (errorResponse 400 ''invalid credentials'')
                  else
                    let jti = uuidv4 E;
                        payload = \<lparr>c_sub = user_id u, c_email = email u, c_jti = Some jti,
                                   c_iat = None, c_exp = None\<rparr>
                    in bind (sign C E payload) (\<lambda>token.
                         ret (200, JObj [(''token'', JStr token)]))))))
       (\<lambda>err.
          bind (console_error ''Login error:'') (\<lambda>_.
            ret (errorResponse 500 ''internal server error'')))"

subsection \<open>\<open>POST /logout\<close>\<close>

text \<open>The header \<open>req.headers.authorization\<close> is a string or absent.\<close>

definition logout :: "config \<Rightarrow> env \<Rightarrow> string option \<Rightarrow> response io" where
  "logout C E authorization =
     catch
       (case authorization of
          None \<Rightarrow> ret (errorResponse 401 ''Unauthorized'')
        | Some auth \<Rightarrow>
            if auth = [] \<or> \<not> startsWith auth ''Bearer ''
            then ret (errorResponse 401 ''Unauthorized'')
            else
              let token = drop 7 auth in
              if token = [] then ret (errorResponse 401 ''Token required'')
              else attempt (verify E True token)
                (\<lambda>payload.
                   case c_jti payload of
                     None \<Rightarrow> ret (errorResponse 400 ''invalid token'')
                   | Some jti \<Rightarrow>
                       if jti = [] then ret (errorResponse 400 ''invalid token'')
                       else
                         let ttl =
                               (case c_exp payload of
                                  None \<Rightarrow> tokenTtlSeconds C
                                | Some e \<Rightarrow>
                                    if e \<noteq> 0
                                    then (let remaining = e - now E in
                                          if remaining > 0 then remaining
                                          else tokenTtlSeconds C)
                                    else tokenTtlSeconds C);
                             key = ''black_'' @ jti
                         in attempt (redis_setEx E key ttl ''1'')
                              (\<lambda>_. ret ok_response)
                              (\<lambda>redisErr.
                                 bind (console_error ''Redis error in logout:'') (\<lambda>_.
                                   ret ok_response)))
                (\<lambda>err.
                   if err = JsonWebTokenError \<or> err = TokenExpiredError
                   then ret (errorResponse 401 ''invalid or expired token'')
                   else throw err))
       (\<lambda>err.
          bind (console_error ''Logout error:'') (\<lambda>_.
            ret (errorResponse 500 ''internal server error'')))"

subsection \<open>\<open>POST /password/forgot\<close>\<close>

definition password_forgot :: "config \<Rightarrow> env \<Rightarrow> json \<Rightarrow> response io" where
  "password_forgot C E em =
     catch
       (if \<not> truthy em then ret (errorResponse 400 ''email required'')
        else bind (lift (normalizeEmail em)) (\<lambda>normalizedEmail.
          if \<not> isValidEmail (JStr normalizedEmail)
          then ret (errorResponse 400 ''invalid email format'')
          else bind (findOne E None normalizedEmail) (\<lambda>found.
            case found of
              None \<Rightarrow> ret (ok_message ''reset code sent if email exists'')
            | Some u \<Rightarrow>
                let code = genCode (random E) 6;
                    key = ''reset_'' @ normalizedEmail
                in bind (attempt (redis_setEx E key (resetTtl C) code)
                           (\<lambda>_. ret ())
                           (\<lambda>redisErr. console_error ''Redis error in forgot password:''))
                     (\<lambda>_.
                   bind (attempt (sendResetCode E normalizedEmail code)
                           (\<lambda>_. ret ())
                           (\<lambda>err. console_error ''SMTP: Failed to send reset code:''))
                     (\<lambda>_. ret (ok_message ''reset code sent if email exists''))))))
       (\<lambda>err.
          bind (console_error ''Forgot password error:'') (\<lambda>_.
            ret (errorResponse 500 ''internal server error'')))"

subsection \<open>\<open>POST /password/reset\<close>\<close>

definition password_reset :: "env \<Rightarrow> json \<Rightarrow> json \<Rightarrow> json \<Rightarrow> response io" where
  "password_reset E em code newPassword =
     catch
       (if \<not> truthy em \<or> \<not> truthy code \<or> \<not> truthy newPassword
        then ret (errorResponse 400 ''email, code and newPassword required'')
        else bind (lift (normalizeEmail em)) (\<lambda>normalizedEmail.
          if \<not> isValidEmail (JStr normalizedEmail)
          then ret (errorResponse 400 ''invalid email format'')
          else if \<not> isValidPassword (toNumber E) newPassword
          then ret (errorResponse 400 ''password must be at least 6 characters'')
          else bind (lift (js_trim code)) (\<lambda>trimmedCode.
            if \<not> test codeRegex trimmedCode
            then ret (errorResponse 400 ''invalid code format'')
            else
              let key = ''reset_'' @ normalizedEmail in
              attempt (redis_get E key)
                (\<lambda>saved.
                   if saved = None \<or> saved = Some []
                   then ret (errorResponse 400 ''code expired or not found'')
                   else if saved \<noteq> Some trimmedCode
                   then ret (errorResponse 400 ''invalid code'')
                   else bind (findOne E None normalizedEmail) (\<lambda>found.
                     case found of
                       None \<Rightarrow> ret (errorResponse 404 ''user not found'')
                     | Some u \<Rightarrow>
                         bind (transaction E) (\<lambda>t.
                           catch
                             (bind (hash E newPassword) (\<lambda>h.
                              bind (save E t (u\<lparr>password_hash := h\<rparr>)) (\<lambda>t'.
                                attempt (redis_del E key)
                                  (\<lambda>_. bind (commit E t') (\<lambda>_. ret ok_response))
                                  (\<lambda>redisErr.
                                     bind (console_error ''Redis error deleting reset code:'') (\<lambda>_.
                                     bind (commit E t') (\<lambda>_. ret ok_response))))))
                             (\<lambda>err. bind (rollback E) (\<lambda>_. throw err)))))
                (\<lambda>redisErr.
                   bind (console_error ''Redis error in reset password:'') (\<lambda>_.
                     ret (errorResponse 500 ''Failed to verify reset code''))))))
       (\<lambda>err.
          bind (console_error ''Reset password error:'') (\<lambda>_.
            ret (errorResponse 500 ''internal server error'')))"

section \<open>The guard of \<open>middleware/auth.js\<close>\<close>

text \<open>The guard either answers itself or sets \<open>req.user\<close> to the payload and calls
  \<open>next()\<close>.\<close>

datatype guard = Respond response | Next claims

definition authMiddleware :: "env \<Rightarrow> string option \<Rightarrow> guard io" where
  "authMiddleware E authorization =
     catch
       (case authorization of
          None \<Rightarrow> ret (Respond (errorResponse 401 ''Unauthorized''))
        | Some auth \<Rightarrow>
            if auth = [] \<or> \<not> startsWith auth ''Bearer ''
            then ret (Respond (errorResponse 401 ''Unauthorized''))
            else
              let token = drop 7 auth in
              if token = [] then ret (Respond (errorResponse 401 ''Token required''))
              else attempt (verify E False token)
                (\<lambda>payload.
                   case c_jti payload of
                     None \<Rightarrow> ret (Respond (errorResponse 401 ''Malformed token''))
                   | Some jti \<Rightarrow>
                       if jti = [] then ret (Respond (errorResponse 401 ''Malformed token''))
                       else
                         let blackKey = ''black_'' @ jti in
                         attempt (redis_get E blackKey)
                           (\<lambda>isBlack.
                              if isBlack \<noteq> None \<and> isBlack \<noteq> Some []
                              then ret (Respond (errorResponse 401 ''Token revoked''))
                              else ret (Next payload))
                           (\<lambda>err.
                              bind (console_error ''Redis error in auth middleware:'') (\<lambda>_.
                                ret (Next payload))))
                (\<lambda>err.
                   if err = TokenExpiredError
                   then ret (Respond (errorResponse 401 ''Token expired''))
                   else if err = JsonWebTokenError
                   then ret (Respond (errorResponse 401 ''Invalid token''))
                   else throw err))
       (\<lambda>err.
          bind (console_error ''Auth middleware error:'') (\<lambda>_.
            ret (Respond (errorResponse 500 ''Internal server error''))))"

section \<open>What a request did\<close>

text \<open>The calls recorded while \<open>m\<close> ran from \<open>w\<close>.\<close>

definition calls :: "'a io \<Rightarrow> world \<Rightarrow> event list" where
  "calls m w = drop (length (trace w)) (trace (snd (m w)))"

section \<open>A concrete scenario\<close>

text \<open>One environment and a few worlds on which the theorems below are run. Here bcrypt
  is a toy (the hash of \<open>s\<close> is \<open>h:s\<close>) and two tokens decode: \<open>t1\<close> expires at second
  2000, \<open>t2\<close> expired at second 500; the clock stands at second 1000.\<close>

definition demo_config :: config where
  "demo_config = \<lparr>verifTtl = 600, resetTtl = 900, tokenTtlSeconds = 86400, jwtExpiresIn = 86400\<rparr>"

definition demo_decode :: "string \<Rightarrow> exn + claims" where
  "demo_decode token =
     (if token = ''t1''
      then Inr \<lparr>c_sub = 1, c_email = ''a@b.com'', c_jti = Some ''j1'',
                c_iat = Some 0, c_exp = Some 2000\<rparr>
      else if token = ''t2''
      then Inr \<lparr>c_sub = 1, c_email = ''a@b.com'', c_jti = Some ''j2'',
                c_iat = Some 0, c_exp = Some 500\<rparr>
      else Inl JsonWebTokenError)"

definition demo_env :: env where
  "demo_env =
     \<lparr>now_ms = 1000000, random = 1 / 4, uuidv4 = ''u1'', fault = (\<lambda>opn. False),
      bcrypt_hash = (\<lambda>p. case p of JStr s \<Rightarrow> Some (''h:'' @ s) | _ \<Rightarrow> None),
      bcrypt_compare = (\<lambda>p h. case p of JStr s \<Rightarrow> Some (h = ''h:'' @ s) | _ \<Rightarrow> None),
      jwt_decode = demo_decode,
      jwt_encode = (\<lambda>c. ''tok:'' @ (case c_jti c of None \<Rightarrow> [] | Some j \<Rightarrow> j)),
      toNumber = (\<lambda>v. None)\<rparr>"

text \<open>The same environment with one external call failing.\<close>

definition failing :: "op \<Rightarrow> env" where
  "failing opn = demo_env\<lparr>fault := (\<lambda>x. x = opn)\<rparr>"

definition empty_world :: world where
  "empty_world = \<lparr>users = [], kv = Map.empty, outbox = [], transporterVerified = True, trace = []\<rparr>"

definition alice :: user where
  "alice = \<lparr>user_id = 1, email = ''a@b.com'', password_hash = ''h:secret1'', verified = False\<rparr>"

text \<open>Alice has registered and her code \<open>123456\<close> is stored until second 1600.\<close>

definition pending_world :: world where
  "pending_world =
     empty_world\<lparr>users := [alice], kv := [''verif_a@b.com'' \<mapsto> (''123456'', 1600)]\<rparr>"

text \<open>Alice is verified and no code is stored.\<close>

definition verified_world :: world where
  "verified_world = empty_world\<lparr>users := [alice\<lparr>verified := True\<rparr>]\<rparr>"

section \<open>Evaluation rules\<close>

declare isValidEmail.simps [simp del]

lemmas io_defs = ret_def throw_def lift_def attempt_def bind_def catch_def emit_def
  console_error_def call_def calls_def Let_def

lemmas store_defs = redis_get_def redis_setEx_def redis_del_def transaction_def findOne_def
  create_def save_def commit_def rollback_def hash_def compare_def verify_def sign_def
  sendMail_def sendVerificationCode_def sendResetCode_def mailer_isValidEmail_def

lemmas demo_defs = demo_config_def demo_decode_def demo_env_def failing_def empty_world_def
  alice_def pending_world_def verified_world_def

lemmas string_defs = normalizeEmail_def trim_def toLowerCase_def toLowerCase_char_def
  isWhiteSpace_def isDigit_def test_def emailRegex_def codeRegex_def OneOrMore_def
  startsWith_def Let_def

section \<open>Facts about the code generator\<close>

lemma digit_char_isDigit: "d < 10 \<Longrightarrow> isDigit (digit_char d)"
  unfolding digit_char_def isDigit_def by (rule nth_mem) simp

lemma toString_nat_length:
  "10 ^ k \<le> n \<Longrightarrow> n < 10 ^ Suc k \<Longrightarrow> length (toString_nat n) = Suc k"
proof (induction k arbitrary: n)
  case 0
  then show ?case by (subst toString_nat.simps) simp
next
  case (Suc k)
  have ge: "10 \<le> n"
  proof -
    have "(10::nat) \<le> 10 ^ Suc k" by simp
    then show ?thesis using Suc.prems(1) by (rule order_trans)
  qed
  have lo: "10 ^ k \<le> n div 10"
  proof -
    have "10 ^ Suc k div 10 \<le> n div 10" using Suc.prems(1) by (rule div_le_mono)
    then show ?thesis by simp
  qed
  have hi: "n div 10 < 10 ^ Suc k"
    using Suc.prems(2) by (simp add: less_mult_imp_div_less mult.commute)
  have "length (toString_nat (n div 10)) = Suc k" using lo hi by (rule Suc.IH)
  with ge show ?case by (subst toString_nat.simps) simp
qed

lemma toString_nat_digits: "\<forall>c \<in> set (toString_nat n). isDigit c"
proof (induction n rule: toString_nat.induct)
  case (1 n)
  show ?case
  proof (cases "n < 10")
    case True
    then show ?thesis by (subst toString_nat.simps) (simp add: digit_char_isDigit)
  next
    case False
    with 1 show ?thesis by (subst toString_nat.simps) (simp add: digit_char_isDigit)
  qed
qed

lemma test_codeRegex_six_digits:
  assumes "length s = 6" and "\<forall>c \<in> set s. isDigit c"
  shows "test codeRegex s"
proof -
  from assms(1) obtain a b c d e f where s: "s = [a, b, c, d, e, f]"
    by (auto simp: eval_nat_numeral length_Suc_conv)
  show ?thesis using assms(2) unfolding s by (simp add: test_def codeRegex_def)
qed

lemma digit_value_digit_char: "d < 10 \<Longrightarrow> digit_value (digit_char d) = d"
proof -
  assume "d < 10"
  then have "d \<in> {0, 1, 2, 3, 4, 5, 6, 7, 8, 9}" by auto
  then show ?thesis by (auto simp: digit_value_def digit_char_def)
qed

lemma read_decimal_toString_nat: "read_decimal (toString_nat n) = n"
proof (induction n rule: toString_nat.induct)
  case (1 n)
  show ?case
  proof (cases "n < 10")
    case True
    then show ?thesis
      by (subst toString_nat.simps) (simp add: read_decimal_def digit_value_digit_char)
  next
    case False
    then have "read_decimal (toString_nat (n div 10)) = n div 10" by (rule 1)
    with False show ?thesis
      by (subst toString_nat.simps) (simp add: read_decimal_def digit_value_digit_char)
  qed
qed

lemma toString_nat_inj: "toString_nat m = toString_nat n \<Longrightarrow> m = n"
  by (metis read_decimal_toString_nat)

section \<open>Facts about binary64 rounding\<close>

lemma roundTiesToEven_of_int: "roundTiesToEven (of_int n) = n"
  by (simp add: roundTiesToEven_def)

lemma roundTiesToEven_le: "z \<le> of_int n \<Longrightarrow> roundTiesToEven z \<le> n"
  unfolding roundTiesToEven_def Let_def by (auto split: if_splits; linarith)

lemma roundTiesToEven_ge: "of_int n \<le> z \<Longrightarrow> n \<le> roundTiesToEven z"
  unfolding roundTiesToEven_def Let_def by (auto split: if_splits; linarith)

lemma roundTiesToEven_err: "\<bar>of_int (roundTiesToEven z) - z\<bar> \<le> 1 / 2"
  unfolding roundTiesToEven_def Let_def by (auto split: if_splits; linarith)

lemma roundTiesToEven_below_half:
  "z < of_int n - 1 / 2 \<Longrightarrow> roundTiesToEven z \<le> n - 1"
  unfolding roundTiesToEven_def Let_def by (auto split: if_splits; linarith)

lemma exponent_bounds:
  assumes "0 < x"
  shows "2 powi exponent x \<le> x \<and> x < 2 powi (exponent x + 1)"
proof (cases "1 \<le> x")
  case True
  define m where "m = \<lfloor>x\<rfloor>"
  have m: "0 < m" using True by (simp add: m_def)
  have b: "1 \<le> bitlen m" using m by (auto simp: bitlen_alt_def)
  from bitlen_bounds [OF m]
  have lo: "2 ^ nat (bitlen m - 1) \<le> m" and hi: "m < 2 ^ nat (bitlen m)" by auto
  have e: "exponent x = bitlen m - 1" using True by (simp add: exponent_def m_def)
  have "(2::real) powi (bitlen m - 1) = 2 ^ nat (bitlen m - 1)"
    using b by (simp add: power_int_def)
  also have "\<dots> = of_int (2 ^ nat (bitlen m - 1))" by simp
  also have "\<dots> \<le> of_int m" using lo by (simp only: of_int_le_iff)
  also have "\<dots> \<le> x" by (simp add: m_def)
  finally have A: "2 powi exponent x \<le> x" by (simp add: e)
  have "m + 1 \<le> 2 ^ nat (bitlen m)" using hi by simp
  then have "of_int (m + 1) \<le> (of_int (2 ^ nat (bitlen m)) :: real)"
    by (simp only: of_int_le_iff)
  moreover have "x < of_int (m + 1)" by (simp add: m_def)
  ultimately have "x < (2::real) ^ nat (bitlen m)" by simp
  also have "\<dots> = 2 powi (bitlen m)" using b by (simp add: power_int_def)
  finally have B: "x < 2 powi (exponent x + 1)" by (simp add: e)
  show ?thesis using A B by simp
next
  case False
  define y where "y = 1 / x"
  define m where "m = \<lceil>y\<rceil> - 1"
  have y: "1 < y" using False assms by (simp add: y_def)
  have m: "0 < m" using y by (simp add: m_def; linarith)
  have my: "of_int m < y" and ym: "y \<le> of_int (m + 1)" by (simp_all add: m_def; linarith)+
  have b: "1 \<le> bitlen m" using m by (auto simp: bitlen_alt_def)
  from bitlen_bounds [OF m]
  have lo: "2 ^ nat (bitlen m - 1) \<le> m" and hi: "m < 2 ^ nat (bitlen m)" by auto
  have e: "exponent x = - bitlen m" using False by (simp add: exponent_def m_def y_def)
  have "m + 1 \<le> 2 ^ nat (bitlen m)" using hi by simp
  then have "of_int (m + 1) \<le> (of_int (2 ^ nat (bitlen m)) :: real)"
    by (simp only: of_int_le_iff)
  then have "of_int (m + 1) \<le> (2::real) ^ nat (bitlen m)" by simp
  with ym have "y \<le> 2 ^ nat (bitlen m)" by linarith
  then have "1 / x \<le> 2 ^ nat (bitlen m)" by (simp add: y_def)
  then have "1 / 2 ^ nat (bitlen m) \<le> x" using assms
    by (simp add: field_simps)
  moreover have "(2::real) powi (- bitlen m) = 1 / 2 ^ nat (bitlen m)"
    using b by (simp add: power_int_def field_simps)
  ultimately have A: "2 powi exponent x \<le> x" by (simp add: e)
  have "(of_int (2 ^ nat (bitlen m - 1)) :: real) \<le> of_int m" using lo by (simp only: of_int_le_iff)
  then have "(2::real) ^ nat (bitlen m - 1) \<le> of_int m" by simp
  with my have "2 ^ nat (bitlen m - 1) < y" by linarith
  then have "2 ^ nat (bitlen m - 1) < 1 / x" by (simp add: y_def)
  then have "x < 1 / 2 ^ nat (bitlen m - 1)" using assms by (simp add: field_simps)
  moreover have "(2::real) powi (- bitlen m + 1) = 1 / 2 ^ nat (bitlen m - 1)"
  proof -
    have "- bitlen m + 1 = - (bitlen m - 1)" by simp
    then have "(2::real) powi (- bitlen m + 1) = 2 powi (- (bitlen m - 1))" by simp
    also have "\<dots> = 1 / 2 powi (bitlen m - 1)" by (rule power_int_minus_divide)
    also have "\<dots> = 1 / 2 ^ nat (bitlen m - 1)" using b by (simp add: power_int_def)
    finally show ?thesis .
  qed
  ultimately have B: "x < 2 powi (exponent x + 1)" by (simp add: e)
  show ?thesis using A B by simp
qed

lemma exponent_eq:
  assumes "2 powi k \<le> x" and "x < 2 powi (k + 1)"
  shows "exponent x = k"
proof -
  have x: "0 < x" using assms(1) zero_less_power_int [of "2::real" k] by linarith
  from exponent_bounds [OF x]
  have lo: "2 powi exponent x \<le> x" and hi: "x < 2 powi (exponent x + 1)" by auto
  have "(2::real) powi exponent x < 2 powi (k + 1)" using lo assms(2) by linarith
  then have a: "exponent x < k + 1"
    using power_int_increasing [of "k + 1" "exponent x" "2::real"] by (cases "exponent x < k + 1") auto
  have "(2::real) powi k < 2 powi (exponent x + 1)" using hi assms(1) by linarith
  then have b: "k < exponent x + 1"
    using power_int_increasing [of "exponent x + 1" k "2::real"] by (cases "k < exponent x + 1") auto
  show ?thesis using a b by linarith
qed

lemma fl_pos:
  "0 < x \<Longrightarrow> fl x = of_int (roundTiesToEven (x / 2 powi max (exponent x - 52) (- 1074))) *
                        2 powi max (exponent x - 52) (- 1074)"
  by (simp add: fl_def Let_def)

lemma fl_eval:
  assumes "2 powi k \<le> x" and "x < 2 powi (k + 1)" and "- 1022 \<le> k"
  shows "fl x = of_int (roundTiesToEven (x / 2 powi (k - 52))) * 2 powi (k - 52)"
proof -
  have x: "0 < x" using assms(1) zero_less_power_int [of "2::real" k] by linarith
  have e: "exponent x = k" using assms(1,2) by (rule exponent_eq)
  have "max (k - 52) (- 1074) = k - 52" using assms(3) by simp
  then show ?thesis using fl_pos [OF x] by (simp add: e)
qed

lemma exponent_less:
  assumes "0 < x" and "x < 2 powi k"
  shows "exponent x < k"
proof -
  from exponent_bounds [OF assms(1)] have "2 powi exponent x \<le> x" by simp
  then have "(2::real) powi exponent x < 2 powi k" using assms(2) by linarith
  then show ?thesis
    using power_int_increasing [of k "exponent x" "2::real"] by (cases "exponent x < k") auto
qed

text \<open>The scaling exponent of a positive number below \<open>2 ^ (K + 1)\<close>.\<close>

lemma scale_le:
  assumes "0 < x" and "x < 2 powi (K + 1)" and "- 1022 \<le> K"
  shows "max (exponent x - 52) (- 1074) \<le> K - 52"
  using exponent_less [OF assms(1,2)] assms(3) by simp

lemma fl_int_bounds:
  assumes x: "0 < x" and b: "x < 2 powi 53"
  shows "x \<le> of_int m \<Longrightarrow> fl x \<le> of_int m" and "of_int m \<le> x \<Longrightarrow> of_int m \<le> fl x"
proof -
  define e where "e = max (exponent x - 52) (- 1074)"
  define n where "n = nat (- e)"
  have "e \<le> 0" using scale_le [OF x, of 52] b by (simp add: e_def)
  then have p: "(2::real) powi e = 1 / 2 ^ n"
    by (simp add: n_def power_int_def field_simps)
  have f: "fl x = of_int (roundTiesToEven (x * 2 ^ n)) / 2 ^ n"
    using fl_pos [OF x] by (simp add: e_def [symmetric] p)
  {
    assume "x \<le> of_int m"
    then have "x * 2 ^ n \<le> of_int (m * 2 ^ n)" by simp
    then have "roundTiesToEven (x * 2 ^ n) \<le> m * 2 ^ n" by (rule roundTiesToEven_le)
    then have "real_of_int (roundTiesToEven (x * 2 ^ n)) \<le> of_int (m * 2 ^ n)"
      by (simp only: of_int_le_iff)
    then show "fl x \<le> of_int m" by (simp add: f field_simps)
  }
  {
    assume "of_int m \<le> x"
    then have "of_int (m * 2 ^ n) \<le> x * 2 ^ n" by simp
    then have "m * 2 ^ n \<le> roundTiesToEven (x * 2 ^ n)" by (rule roundTiesToEven_ge)
    then have "real_of_int (m * 2 ^ n) \<le> of_int (roundTiesToEven (x * 2 ^ n))"
      by (simp only: of_int_le_iff)
    then show "of_int m \<le> fl x" by (simp add: f field_simps)
  }
qed

lemma fl_of_int:
  assumes "0 \<le> m" and "m < 2 ^ 53"
  shows "fl (of_int m) = of_int m"
proof (cases "m = 0")
  case True
  then show ?thesis by (simp add: fl_def)
next
  case False
  then have x: "0 < real_of_int m" using assms(1) by simp
  have "real_of_int m < of_int (2 ^ 53)" using assms(2) by (simp only: of_int_less_iff)
  then have b: "real_of_int m < 2 powi 53" by simp
  from fl_int_bounds [OF x b, of m] show ?thesis by simp
qed

lemma fl_err:
  assumes x: "0 < x" and b: "x < 2 powi (K + 1)" and K: "- 1022 \<le> K"
  shows "\<bar>fl x - x\<bar> \<le> 2 powi (K - 53)"
proof -
  define e where "e = max (exponent x - 52) (- 1074)"
  define z where "z = x / 2 powi e"
  have e: "e \<le> K - 52" using scale_le [OF x b K] by (simp add: e_def)
  have pos: "0 < (2::real) powi e" by (simp add: zero_less_power_int)
  have xz: "x = z * 2 powi e" using pos by (simp add: z_def)
  have "fl x - x = (of_int (roundTiesToEven z) - z) * 2 powi e"
    using fl_pos [OF x] by (simp add: e_def [symmetric] z_def [symmetric] xz [symmetric] algebra_simps)
  then have "\<bar>fl x - x\<bar> = \<bar>of_int (roundTiesToEven z) - z\<bar> * 2 powi e"
    using pos by (simp add: abs_mult)
  also have "\<dots> \<le> 1 / 2 * 2 powi e"
    using roundTiesToEven_err [of z] pos by (intro mult_right_mono) simp_all
  also have "\<dots> \<le> 1 / 2 * 2 powi (K - 52)"
    using power_int_increasing [OF e, of "2::real"] by simp
  also have "\<dots> = 2 powi (K - 53)"
  proof -
    have "(2::real) powi (K - 52) = 2 powi (K - 53 + 1)" by simp
    also have "\<dots> = 2 powi (K - 53) * 2" by (rule power_int_add_1) simp
    finally show ?thesis by simp
  qed
  finally show ?thesis .
qed

lemma fl_nonneg: "0 \<le> x \<Longrightarrow> 0 \<le> fl x"
proof (cases "x = 0")
  case True then show ?thesis by (simp add: fl_def)
next
  case False
  assume "0 \<le> x"
  with False have x: "0 < x" by simp
  define e where "e = max (exponent x - 52) (- 1074)"
  have "0 \<le> x / 2 powi e" using x by (simp add: zero_less_power_int less_imp_le)
  then have "(0::int) \<le> roundTiesToEven (x / 2 powi e)"
    using roundTiesToEven_ge [of 0 "x / 2 powi e"] by simp
  then show ?thesis using fl_pos [OF x] by (simp add: e_def [symmetric] zero_less_power_int less_imp_le)
qed

lemma fl_numeral:
  "numeral w < (2::int) ^ 53 \<Longrightarrow> fl (numeral w) = numeral w"
  using fl_of_int [of "numeral w"] by simp

lemma genCode_number_6: "genCode_number r 6 = \<lfloor>fl (100000 + fl (r * 900000))\<rfloor>"
  by (simp add: genCode_number_def fl_numeral)

lemma double_below_one:
  assumes "fl r = r" and "0 \<le> r" and "r < 1"
  shows "r \<le> 1 - 2 powi (- 53)"
proof (cases "r < 1 / 2")
  case True
  have "(2::real) powi (- 53) \<le> 2 powi (- 1)" by (rule power_int_increasing) simp_all
  then show ?thesis using True by simp
next
  case False
  then have lo: "2 powi (- 1) \<le> r" by simp
  have hi: "r < 2 powi (- 1 + 1)" using assms(3) by simp
  define j where "j = roundTiesToEven (r / 2 powi (- 1 - 52))"
  have "fl r = of_int j * 2 powi (- 1 - 52)" unfolding j_def using lo hi by (rule fl_eval) simp
  then have r: "r = of_int j / 2 ^ 53" using assms(1) by (simp add: power_int_minus_divide)
  then have "real_of_int j < 2 ^ 53" using assms(3) by (simp add: field_simps)
  then have "real_of_int j < of_int (2 ^ 53)" by simp
  then have "j < 2 ^ 53" by (simp only: of_int_less_iff)
  then have "j \<le> 2 ^ 53 - 1" by simp
  then have "real_of_int j \<le> of_int (2 ^ 53 - 1)" by (simp only: of_int_le_iff)
  then have "real_of_int j \<le> 2 ^ 53 - 1" by simp
  then have "r \<le> (2 ^ 53 - 1) / 2 ^ 53" unfolding r by (simp add: divide_right_mono)
  then show ?thesis by (simp add: power_int_minus_divide field_simps)
qed

lemma product_rounds_below:
  assumes "0 \<le> p" and "p \<le> 900000 - 900000 * 2 powi (- 53)"
  shows "fl p \<le> 900000 - 2 powi (- 33)"
proof (cases "p = 0")
  case True
  then show ?thesis by (simp add: fl_def power_int_minus_divide)
next
  case False
  with assms(1) have pos: "0 < p" by simp
  have p9: "p < 900000" using assms(2) zero_less_power_int [of "2::real" "- 53"] by linarith
  show ?thesis
  proof (cases "p < 524288")
    case True
    have "p < 2 powi 53" using True by simp
    with pos have "fl p \<le> of_int 524288" using True by (intro fl_int_bounds(1)) simp_all
    then show ?thesis by (simp add: power_int_minus_divide)
  next
    case False
    then have lo: "2 powi 19 \<le> p" by simp
    have hi: "p < 2 powi (19 + 1)" using p9 by simp
    have f: "fl p = of_int (roundTiesToEven (p / 2 powi (19 - 52))) * 2 powi (19 - 52)"
      using lo hi by (rule fl_eval) simp
    have "p * 2 ^ 33 \<le> (900000 - 900000 / 2 ^ 53) * 2 ^ 33"
      using assms(2) by (simp add: power_int_minus_divide)
    also have "\<dots> < of_int (900000 * 2 ^ 33) - 1 / 2" by simp
    finally have "roundTiesToEven (p * 2 ^ 33) \<le> 900000 * 2 ^ 33 - 1"
      by (rule roundTiesToEven_below_half)
    then have "real_of_int (roundTiesToEven (p * 2 ^ 33)) \<le> of_int (900000 * 2 ^ 33 - 1)"
      by (simp only: of_int_le_iff)
    then have "real_of_int (roundTiesToEven (p * 2 ^ 33)) / 2 ^ 33 \<le> (900000 * 2 ^ 33 - 1) / 2 ^ 33"
      by (simp add: divide_right_mono)
    then show ?thesis using f by (simp add: power_int_minus_divide field_simps)
  qed
qed

text \<open>The two rounded operations of \<open>genCode(6)\<close>, for a product \<open>p\<close> of the random number
  and 900000.\<close>

lemma sum_bounds:
  assumes "0 \<le> p" and "p < 900000"
  shows "of_int k \<le> p \<Longrightarrow> 0 \<le> k \<Longrightarrow> 100000 + k \<le> \<lfloor>fl (100000 + fl p)\<rfloor>"
    and "p < of_int k + 1 - 2 powi (- 33) \<Longrightarrow> \<lfloor>fl (100000 + fl p)\<rfloor> < 100000 + k + 1"
    and "100000 + k \<le> \<lfloor>fl (100000 + fl p)\<rfloor> \<Longrightarrow> of_int k - 2 powi (- 33) \<le> p"
proof -
  have P0: "0 \<le> fl p" using assms(1) by (rule fl_nonneg)
  have perr: "\<bar>fl p - p\<bar> \<le> 2 powi (- 34)"
  proof (cases "p = 0")
    case True then show ?thesis by (simp add: fl_def)
  next
    case False
    with assms(1) have "0 < p" by simp
    moreover have "p < 2 powi (19 + 1)" using assms(2) by simp
    ultimately have "\<bar>fl p - p\<bar> \<le> 2 powi (19 - 53)" by (rule fl_err) simp
    then show ?thesis by simp
  qed
  have e34: "(2::real) powi (- 34) = 1 / 17179869184"
    and e33: "(2::real) powi (- 33) = 1 / 8589934592"
    by (simp_all add: power_int_minus_divide)
  have perr': "fl p - p \<le> 1 / 17179869184" "p - fl p \<le> 1 / 17179869184"
    using perr unfolding e34 by linarith+
  have P9: "fl p < 900001" using perr'(1) assms(2) by linarith
  define s where "s = 100000 + fl p"
  have s0: "0 < s" and s20: "s < 2 powi (19 + 1)" and s53: "s < 2 powi 53"
    using P0 P9 by (simp_all add: s_def)
  have "\<bar>fl s - s\<bar> \<le> 2 powi (- 34)"
    using fl_err [OF s0 s20] by simp
  then have serr': "fl s - s \<le> 1 / 17179869184" "s - fl s \<le> 1 / 17179869184"
    unfolding e34 by linarith+
  {
    assume k: "of_int k \<le> p" "0 \<le> k"
    have "of_int k \<le> fl p"
    proof (cases "p = 0")
      case True
      with k have "k = 0" by simp
      then show ?thesis using P0 by simp
    next
      case False
      with assms(1) have "0 < p" by simp
      moreover have "p < 2 powi 53" using assms(2) by simp
      ultimately show ?thesis using k(1) by (rule fl_int_bounds(2))
    qed
    then have "of_int (100000 + k) \<le> s" by (simp add: s_def)
    with s0 s53 have "of_int (100000 + k) \<le> fl s" by (rule fl_int_bounds(2))
    then show "100000 + k \<le> \<lfloor>fl (100000 + fl p)\<rfloor>" by (simp add: s_def le_floor_iff)
  }
  {
    assume "p < of_int k + 1 - 2 powi (- 33)"
    then have "p < of_int k + 1 - 1 / 8589934592" unfolding e33 .
    then have "fl s < 100000 + of_int k + 1"
      using perr'(1) serr'(1) unfolding s_def by linarith
    then have "fl s < of_int (100000 + k + 1)" by simp
    then show "\<lfloor>fl (100000 + fl p)\<rfloor> < 100000 + k + 1" by (simp add: s_def floor_less_iff)
  }
  {
    assume "100000 + k \<le> \<lfloor>fl (100000 + fl p)\<rfloor>"
    then have "of_int (100000 + k) \<le> fl s" by (simp add: s_def le_floor_iff)
    then have "100000 + of_int k \<le> fl s" by simp
    then have "of_int k - 1 / 8589934592 \<le> p"
      using perr'(1) serr'(1) unfolding s_def by linarith
    then show "of_int k - 2 powi (- 33) \<le> p" unfolding e33 .
  }
qed

lemma fl_quarter: "fl (1 / 4) = 1 / 4"
proof -
  have "fl (1 / 4) = of_int (roundTiesToEven ((1 / 4) / 2 powi (- 2 - 52))) * 2 powi (- 2 - 52)"
    by (rule fl_eval) (simp_all add: power_int_minus_divide)
  then show ?thesis by (simp add: power_int_minus_divide roundTiesToEven_def)
qed

lemma fl_r0: "fl (2251794809685662 / 4503599627370496) = 2251794809685662 / 4503599627370496"
proof -
  have "fl (2251794809685662 / 4503599627370496) =
        of_int (roundTiesToEven ((2251794809685662 / 4503599627370496) / 2 powi (- 2 - 52))) *
          2 powi (- 2 - 52)"
    by (rule fl_eval) (simp_all add: power_int_minus_divide)
  then show ?thesis by (simp add: power_int_minus_divide roundTiesToEven_def)
qed

lemma fl_product_r0: "fl (2251794809685662 / 4503599627370496 * 900000) = 449999"
proof -
  have "fl (2251794809685662 / 4503599627370496 * 900000) =
        of_int (roundTiesToEven ((2251794809685662 / 4503599627370496 * 900000) / 2 powi (18 - 52))) *
          2 powi (18 - 52)"
    by (rule fl_eval) (simp_all add: power_int_minus_divide)
  then show ?thesis by (simp add: power_int_minus_divide roundTiesToEven_def)
qed

section \<open>Facts about the routes\<close>

lemma js_trim_not_string: "\<forall>s. code \<noteq> JStr s \<Longrightarrow> js_trim code = Inl TypeError"
  by (cases code) simp_all

lemma register_request_user_has_code:
  assumes "users (snd (register_request C E em password w)) \<noteq> users w"
  shows "\<exists>ne h. normalizeEmail em = Inr ne \<and> bcrypt_hash E password = Some h \<and>
           users (snd (register_request C E em password w)) =
             users w @ [\<lparr>user_id = next_id (users w), email = ne, password_hash = h,
                          verified = False\<rparr>] \<and>
           kv (snd (register_request C E em password w)) (''verif_'' @ ne) =
             Some (genCode (random E) 6, now E + verifTtl C) \<and>
           fst (register_request C E em password w) =
             Inr (ok_message ''verification code sent to email'')"
  using assms
  by (auto simp add: register_request_def io_defs store_defs
      split: option.splits sum.splits if_splits)

lemma register_verify_no_code:
  assumes "normalizeEmail em = Inr ne" and "kv w (''verif_'' @ ne) = None"
  shows "fst (register_verify E em code w) \<noteq> Inr ok_response \<and>
         users (snd (register_verify E em code w)) = users w"
  using assms
  by (auto simp add: register_verify_def io_defs redis_get_def errorResponse_def ok_response_def
      split: sum.splits)

text \<open>When the comparison resolves to false, a missing account and a verified account get
  the same response.\<close>

lemma login_mismatch_same_response:
  assumes "truthy em1" "normalizeEmail em1 = Inr ne1" "isValidEmail (JStr ne1)" "truthy pw1"
      and "truthy em2" "normalizeEmail em2 = Inr ne2" "isValidEmail (JStr ne2)" "truthy pw2"
      and "\<not> fault E OpFindOne"
      and "find (\<lambda>u. email u = ne1) (users w) = None"
      and "find (\<lambda>u. email u = ne2) (users w) = Some u" "verified u"
      and "bcrypt_compare E pw2 (password_hash u) = Some False"
  shows "fst (login C E em1 pw1 w) = Inr (errorResponse 400 ''invalid credentials'') \<and>
         fst (login C E em2 pw2 w) = Inr (errorResponse 400 ''invalid credentials'') \<and>
         fst (login C E em1 pw1 w) = fst (login C E em2 pw2 w)"
  using assms by (simp add: login_def io_defs findOne_def compare_def Let_def)

text \<open>A logout that stores its marker, followed by a guard check of the same unexpired
  token at the same time, is refused.\<close>

lemma logout_then_guard_rejects:
  assumes "token \<noteq> []" and "jwt_decode E token = Inr payload"
      and "c_jti payload = Some jti" and "jti \<noteq> []"
      and "c_exp payload = Some e" and "now E < e" and "0 \<le> now E"
      and "\<not> fault E OpRedisSetEx" and "\<not> fault E OpRedisGet"
  shows "fst (authMiddleware E (Some (''Bearer '' @ token))
                (snd (logout C E (Some (''Bearer '' @ token)) w))) =
           Inr (Respond (errorResponse 401 ''Token revoked''))"
  using assms
  by (auto simp add: authMiddleware_def logout_def io_defs verify_def redis_get_def
      redis_setEx_def startsWith_def)

section \<open>Facts about the scenario\<close>

lemma demo_email:
  "normalizeEmail (JStr ''a@b.com'') = Inr ''a@b.com''"
  "isValidEmail (JStr ''a@b.com'')"
  "normalizeEmail (JStr ''c@d.org'') = Inr ''c@d.org''"
  "isValidEmail (JStr ''c@d.org'')"
  by (simp_all add: string_defs isValidEmail.simps)

lemma demo_code:
  "trim ''123456'' = ''123456''"
  "test codeRegex ''123456''"
  by (simp_all add: string_defs)

lemma demo_now: "now demo_env = 1000" "now (failing opn) = 1000"
  by (simp_all add: now_def demo_defs)

lemma demo_genCode: "genCode (1 / 4) 6 = ''325000''"
  by (simp add: genCode_def genCode_number_6 fl_numeral toString_def toString_nat.simps
      digit_char_def)

lemma demo_first_verify:
  "register_verify demo_env (JStr ''a@b.com'') (JStr ''123456'') pending_world =
     (Inr ok_response,
      pending_world\<lparr>users := [alice\<lparr>verified := True\<rparr>], kv := Map.empty,
        trace := [RedisGet ''verif_a@b.com'', FindOne ''a@b.com'', Transaction,
                  Save (alice\<lparr>verified := True\<rparr>), RedisDel ''verif_a@b.com'', Commit]\<rparr>)"
  by (simp add: register_verify_def io_defs store_defs demo_defs demo_email demo_code now_def)

lemma demo_logout_t1:
  "kv (snd (logout demo_config demo_env (Some ''Bearer t1'') empty_world)) ''black_j1'' =
     Some (''1'', 2000)"
  by (simp add: logout_def io_defs store_defs demo_defs string_defs now_def)

section \<open>The claims\<close>

text \<open>
  C1 (as amended). \<open>register-verify\<close> with the stored code sets \<open>verified\<close> of an unverified
  user to true (when no external call fails) and deletes the code. For a user who is
  already verified, a \<open>register-verify\<close> call for the same email never changes the user
  table, whatever the code; it answers ok exactly when the supplied code has the six-digit
  format and still equals an unexpired code stored under \<open>verif_{email}\<close> (and the store read
  and the user lookup succeed); otherwise it answers an error.
\<close>

theorem register_verify_once_then_stable:
  assumes "normalizeEmail em = Inr ne"
      and "find (\<lambda>u. email u = ne) (users w) = Some u"
  shows "(\<not> verified u \<and> truthy em \<and> isValidEmail (JStr ne) \<and> truthy code \<and>
          js_trim code = Inr t \<and> test codeRegex t \<and>
          kv w (''verif_'' @ ne) = Some (t, expiry) \<and> now E < expiry \<and>
          (\<forall>opn. \<not> fault E opn) \<longrightarrow>
            fst (register_verify E em code w) = Inr ok_response \<and>
            users (snd (register_verify E em code w)) =
              map (\<lambda>x. if user_id x = user_id u then u\<lparr>verified := True\<rparr> else x) (users w) \<and>
            kv (snd (register_verify E em code w)) (''verif_'' @ ne) = None) \<and>
         (verified u \<longrightarrow>
            users (snd (register_verify E em code w)) = users w \<and>
            (fst (register_verify E em code w) = Inr ok_response \<longleftrightarrow>
               truthy em \<and> isValidEmail (JStr ne) \<and> truthy code \<and> \<not> fault E OpRedisGet \<and>
               \<not> fault E OpFindOne \<and>
               (\<exists>s x. js_trim code = Inr s \<and> test codeRegex s \<and>
                      kv w (''verif_'' @ ne) = Some (s, x) \<and> now E < x)))"
proof -
  have nonempty: "test codeRegex s \<Longrightarrow> s \<noteq> []" for s
    by (auto simp add: test_def codeRegex_def)
  have a: "\<not> verified u \<and> truthy em \<and> isValidEmail (JStr ne) \<and> truthy code \<and>
          js_trim code = Inr t \<and> test codeRegex t \<and>
          kv w (''verif_'' @ ne) = Some (t, expiry) \<and> now E < expiry \<and>
          (\<forall>opn. \<not> fault E opn) \<longrightarrow>
            fst (register_verify E em code w) = Inr ok_response \<and>
            users (snd (register_verify E em code w)) =
              map (\<lambda>x. if user_id x = user_id u then u\<lparr>verified := True\<rparr> else x) (users w) \<and>
            kv (snd (register_verify E em code w)) (''verif_'' @ ne) = None"
    using assms nonempty [of t] by (auto simp add: register_verify_def io_defs store_defs)
  have b: "users (snd (register_verify E em code w)) = users w" if "verified u"
    using assms that
    by (auto simp add: register_verify_def io_defs store_defs split: sum.splits option.splits)
  have c: "fst (register_verify E em code w) = Inr ok_response \<longleftrightarrow>
               truthy em \<and> isValidEmail (JStr ne) \<and> truthy code \<and> \<not> fault E OpRedisGet \<and>
               \<not> fault E OpFindOne \<and>
               (\<exists>s x. js_trim code = Inr s \<and> test codeRegex s \<and>
                      kv w (''verif_'' @ ne) = Some (s, x) \<and> now E < x)" if "verified u"
    using assms that nonempty
    by (auto simp add: register_verify_def io_defs store_defs errorResponse_def ok_response_def
        split: sum.splits option.splits if_splits)
  show ?thesis using a b c by blast
qed

theorem register_verify_once_then_stable_witness:
  "normalizeEmail (JStr ''a@b.com'') = Inr ''a@b.com'' \<and>
   find (\<lambda>u. email u = ''a@b.com'') (users pending_world) = Some alice \<and>
   \<not> verified alice \<and>
   fst (register_verify demo_env (JStr ''a@b.com'') (JStr ''123456'') pending_world) =
     Inr ok_response \<and>
   find (\<lambda>u. email u = ''a@b.com'')
     (users (snd (register_verify demo_env (JStr ''a@b.com'') (JStr ''123456'') pending_world))) =
     Some (alice\<lparr>verified := True\<rparr>) \<and>
   users (snd (register_verify demo_env (JStr ''a@b.com'') (JStr ''123456'')
                 (snd (register_verify demo_env (JStr ''a@b.com'') (JStr ''123456'')
                         pending_world)))) =
     [alice\<lparr>verified := True\<rparr>] \<and>
   fst (register_verify demo_env (JStr ''a@b.com'') (JStr ''123456'')
          (snd (register_verify demo_env (JStr ''a@b.com'') (JStr ''123456'') pending_world))) \<noteq>
     Inr ok_response"
proof -
  let ?w1 = "snd (register_verify demo_env (JStr ''a@b.com'') (JStr ''123456'') pending_world)"
  have n: "normalizeEmail (JStr ''a@b.com'') = Inr ''a@b.com''" by (rule demo_email)
  have f1: "find (\<lambda>u. email u = ''a@b.com'') (users pending_world) = Some alice"
    by (simp add: demo_defs)
  have us: "users ?w1 = [alice\<lparr>verified := True\<rparr>]" by (simp add: demo_first_verify)
  have f2: "find (\<lambda>u. email u = ''a@b.com'') (users ?w1) = Some (alice\<lparr>verified := True\<rparr>)"
    unfolding us by (simp add: alice_def)
  have u: "\<not> verified alice" by (simp add: demo_defs)
  have pre: "\<not> verified alice \<and> truthy (JStr ''a@b.com'') \<and> isValidEmail (JStr ''a@b.com'') \<and>
             truthy (JStr ''123456'') \<and> js_trim (JStr ''123456'') = Inr ''123456'' \<and>
             test codeRegex ''123456'' \<and>
             kv pending_world (''verif_'' @ ''a@b.com'') = Some (''123456'', 1600) \<and>
             now demo_env < 1600 \<and> (\<forall>opn. \<not> fault demo_env opn)"
    by (simp add: demo_email demo_code demo_now) (simp add: demo_defs)
  have a: "fst (register_verify demo_env (JStr ''a@b.com'') (JStr ''123456'') pending_world) =
             Inr ok_response"
    using register_verify_once_then_stable [OF n f1, of "JStr ''123456''" "''123456''" 1600 demo_env]
      pre by blast
  have v: "verified (alice\<lparr>verified := True\<rparr>)" by simp
  have none: "kv ?w1 (''verif_'' @ ''a@b.com'') = None" by (simp add: demo_first_verify)
  have b: "users (snd (register_verify demo_env (JStr ''a@b.com'') (JStr ''123456'') ?w1)) =
             users ?w1 \<and>
           fst (register_verify demo_env (JStr ''a@b.com'') (JStr ''123456'') ?w1) \<noteq>
             Inr ok_response"
    using register_verify_once_then_stable [OF n f2, of "JStr ''123456''" "''123456''" 1600 demo_env]
      v none by auto
  show ?thesis using n f1 f2 u a b us by simp
qed

text \<open>
  C1 as the specification states it fails: after Alice's first successful verification the
  code is deleted, and the same correct code sent again is answered with 400
  \<open>code expired or not found\<close>, not with ok.
\<close>

theorem register_verify_second_call_counterexample:
  "fst (register_verify demo_env (JStr ''a@b.com'') (JStr ''123456'') pending_world) =
     Inr ok_response \<and>
   users (snd (register_verify demo_env (JStr ''a@b.com'') (JStr ''123456'') pending_world)) =
     [alice\<lparr>verified := True\<rparr>] \<and>
   fst (register_verify demo_env (JStr ''a@b.com'') (JStr ''123456'')
         (snd (register_verify demo_env (JStr ''a@b.com'') (JStr ''123456'') pending_world))) =
     Inr (errorResponse 400 ''code expired or not found'') \<and>
   errorResponse 400 ''code expired or not found'' \<noteq> ok_response"
  by (simp add: demo_first_verify)
     (simp add: register_verify_def io_defs store_defs demo_defs demo_email demo_code now_def
        errorResponse_def ok_response_def)

text \<open>
  C2. For every \<open>register-request\<close> that passes validation and the duplicate-email check, if
  the ephemeral-store write of the verification code fails, the transaction is rolled back
  and never committed, the user table is as before (no record for the email), and the
  response has status 500. And whenever \<open>register-request\<close> changes the user table at all, the
  new record comes with the verification code stored under \<open>verif_{email}\<close>.
\<close>

theorem register_request_rolls_back:
  assumes "truthy em" and "truthy password" and "normalizeEmail em = Inr ne"
      and "isValidEmail (JStr ne)" and "isValidPassword (toNumber E) password"
      and "\<not> fault E OpTransaction" and "\<not> fault E OpFindOne"
      and "find (\<lambda>u. email u = ne) (users w) = None"
      and "bcrypt_hash E password = Some h" and "\<not> fault E OpCreate \<and> \<not> fault E OpCreateUnique"
      and "fault E OpRedisSetEx"
  shows "(\<exists>body. fst (register_request C E em password w) = Inr (500, body)) \<and>
         (\<not> fault E OpRollback \<longrightarrow>
            fst (register_request C E em password w) =
              Inr (errorResponse 500 ''Failed to store verification code'')) \<and>
         Rollback \<in> set (calls (register_request C E em password) w) \<and>
         Commit \<notin> set (calls (register_request C E em password) w) \<and>
         users (snd (register_request C E em password w)) = users w \<and>
         find (\<lambda>u. email u = ne) (users (snd (register_request C E em password w))) = None \<and>
         kv (snd (register_request C E em password w)) = kv w \<and>
         (users (snd (register_request C' E' em' password' w')) \<noteq> users w' \<longrightarrow>
            (\<exists>ne' h'. normalizeEmail em' = Inr ne' \<and>
               users (snd (register_request C' E' em' password' w')) =
                 users w' @ [\<lparr>user_id = next_id (users w'), email = ne', password_hash = h',
                               verified = False\<rparr>] \<and>
               kv (snd (register_request C' E' em' password' w')) (''verif_'' @ ne') =
                 Some (genCode (random E') 6, now E' + verifTtl C') \<and>
               fst (register_request C' E' em' password' w') =
                 Inr (ok_message ''verification code sent to email'')))"
proof -
  have nf: "ne \<notin> set (map email (users w))"
    using assms(8) by (auto simp add: find_None_iff)
  have part1:
    "(\<exists>body. fst (register_request C E em password w) = Inr (500, body)) \<and>
     (\<not> fault E OpRollback \<longrightarrow>
        fst (register_request C E em password w) =
          Inr (errorResponse 500 ''Failed to store verification code'')) \<and>
     Rollback \<in> set (calls (register_request C E em password) w) \<and>
     Commit \<notin> set (calls (register_request C E em password) w) \<and>
     users (snd (register_request C E em password w)) = users w \<and>
     find (\<lambda>u. email u = ne) (users (snd (register_request C E em password w))) = None \<and>
     kv (snd (register_request C E em password w)) = kv w"
    using assms nf
    by (auto simp add: register_request_def io_defs store_defs errorResponse_def)
  have part2:
    "users (snd (register_request C' E' em' password' w')) \<noteq> users w' \<longrightarrow>
       (\<exists>ne' h'. normalizeEmail em' = Inr ne' \<and>
          users (snd (register_request C' E' em' password' w')) =
            users w' @ [\<lparr>user_id = next_id (users w'), email = ne', password_hash = h',
                          verified = False\<rparr>] \<and>
          kv (snd (register_request C' E' em' password' w')) (''verif_'' @ ne') =
            Some (genCode (random E') 6, now E' + verifTtl C') \<and>
          fst (register_request C' E' em' password' w') =
            Inr (ok_message ''verification code sent to email''))"
    using register_request_user_has_code [of C' E' em' password' w'] by blast
  show ?thesis using part1 part2 by blast
qed

theorem register_request_rolls_back_witness:
  "truthy (JStr ''a@b.com'') \<and> truthy (JStr ''secret1'') \<and>
   isValidPassword (toNumber (failing OpRedisSetEx)) (JStr ''secret1'') \<and>
   fault (failing OpRedisSetEx) OpRedisSetEx \<and>
   fst (register_request demo_config (failing OpRedisSetEx) (JStr ''a@b.com'') (JStr ''secret1'')
          empty_world) = Inr (errorResponse 500 ''Failed to store verification code'') \<and>
   users (snd (register_request demo_config (failing OpRedisSetEx) (JStr ''a@b.com'')
                 (JStr ''secret1'') empty_world)) = [] \<and>
   users (snd (register_request demo_config demo_env (JStr ''a@b.com'') (JStr ''secret1'')
                 empty_world)) \<noteq> users empty_world \<and>
   kv (snd (register_request demo_config demo_env (JStr ''a@b.com'') (JStr ''secret1'')
              empty_world)) ''verif_a@b.com'' = Some (''325000'', 1600)"
proof -
  let ?E = "failing OpRedisSetEx"
  have h1: "truthy (JStr ''a@b.com'')" and h2: "truthy (JStr ''secret1'')" by simp_all
  have h3: "normalizeEmail (JStr ''a@b.com'') = Inr ''a@b.com''"
    and h4: "isValidEmail (JStr ''a@b.com'')" by (rule demo_email)+
  have h5: "isValidPassword (toNumber ?E) (JStr ''secret1'')"
    by (simp add: isValidPassword_def)
  have h6: "\<not> fault ?E OpTransaction" and h7: "\<not> fault ?E OpFindOne"
    and h10: "\<not> fault ?E OpCreate \<and> \<not> fault ?E OpCreateUnique" and h11: "fault ?E OpRedisSetEx"
    and h12: "\<not> fault ?E OpRollback"
    by (simp_all add: demo_defs)
  have h8: "find (\<lambda>u. email u = ''a@b.com'') (users empty_world) = None"
    by (simp add: demo_defs)
  have h9: "bcrypt_hash ?E (JStr ''secret1'') = Some ''h:secret1''" by (simp add: demo_defs)
  note t = register_request_rolls_back [OF h1 h2 h3 h4 h5 h6 h7 h8 h9 h10 h11,
      of demo_config demo_config demo_env "JStr ''a@b.com''" "JStr ''secret1''" empty_world]
  have changed: "users (snd (register_request demo_config demo_env (JStr ''a@b.com'')
                   (JStr ''secret1'') empty_world)) \<noteq> users empty_world"
    by (simp add: register_request_def io_defs store_defs demo_defs demo_email
        isValidPassword_def find_None_iff)
  have a: "fst (register_request demo_config ?E (JStr ''a@b.com'') (JStr ''secret1'')
             empty_world) = Inr (errorResponse 500 ''Failed to store verification code'')"
    using t h12 by blast
  have b: "users (snd (register_request demo_config ?E (JStr ''a@b.com'')
                 (JStr ''secret1'') empty_world)) = []"
    using t by (simp add: demo_defs)
  have code: "genCode (random demo_env) 6 = ''325000''"
    by (simp add: demo_env_def demo_genCode)
  have c: "kv (snd (register_request demo_config demo_env (JStr ''a@b.com'') (JStr ''secret1'')
              empty_world)) ''verif_a@b.com'' = Some (''325000'', 1600)"
    using t changed h3 code by (auto simp add: demo_now demo_config_def)
  show ?thesis using h1 h2 h5 h11 a b changed c by blast
qed

text \<open>
  C3. The claim is that a \<open>login\<close> naming a missing account and a \<open>login\<close> naming a verified
  account with a wrong password get the same 400 \<open>invalid credentials\<close>, for every password
  that is present. The route does not do this for a password on which \<open>bcrypt.compare\<close>
  rejects, as it does for one that is not a string (a JSON number): the missing account gets
  400 \<open>invalid credentials\<close>, the verified account gets 500 \<open>internal server error\<close>, so the
  two responses differ and tell the accounts apart.
\<close>

theorem login_nonstring_password_distinguishes:
  assumes "truthy em1" and "normalizeEmail em1 = Inr ne1" and "isValidEmail (JStr ne1)"
      and "truthy em2" and "normalizeEmail em2 = Inr ne2" and "isValidEmail (JStr ne2)"
      and "truthy password" and "\<not> fault E OpFindOne"
      and "find (\<lambda>u. email u = ne1) (users w) = None"
      and "find (\<lambda>u. email u = ne2) (users w) = Some u" and "verified u"
      and "bcrypt_compare E password (password_hash u) = None"
  shows "fst (login C E em1 password w) = Inr (errorResponse 400 ''invalid credentials'') \<and>
         fst (login C E em2 password w) = Inr (errorResponse 500 ''internal server error'') \<and>
         fst (login C E em1 password w) \<noteq> fst (login C E em2 password w)"
  using assms by (simp add: login_def io_defs findOne_def compare_def errorResponse_def)

theorem login_nonstring_password_distinguishes_witness:
  "truthy (JStr ''c@d.org'') \<and> truthy (JStr ''a@b.com'') \<and> truthy (JNum 1234567) \<and>
   find (\<lambda>u. email u = ''c@d.org'') (users verified_world) = None \<and>
   find (\<lambda>u. email u = ''a@b.com'') (users verified_world) = Some (alice\<lparr>verified := True\<rparr>) \<and>
   bcrypt_compare demo_env (JNum 1234567) (password_hash (alice\<lparr>verified := True\<rparr>)) = None \<and>
   fst (login demo_config demo_env (JStr ''c@d.org'') (JNum 1234567) verified_world) =
     Inr (errorResponse 400 ''invalid credentials'') \<and>
   fst (login demo_config demo_env (JStr ''a@b.com'') (JNum 1234567) verified_world) =
     Inr (errorResponse 500 ''internal server error'')"
proof -
  have h1: "truthy (JStr ''c@d.org'')" and h4: "truthy (JStr ''a@b.com'')"
    and h7: "truthy (JNum 1234567)" by simp_all
  have h2: "normalizeEmail (JStr ''c@d.org'') = Inr ''c@d.org''"
    and h3: "isValidEmail (JStr ''c@d.org'')"
    and h5: "normalizeEmail (JStr ''a@b.com'') = Inr ''a@b.com''"
    and h6: "isValidEmail (JStr ''a@b.com'')" by (rule demo_email)+
  have h8: "\<not> fault demo_env OpFindOne" by (simp add: demo_defs)
  have h9: "find (\<lambda>u. email u = ''c@d.org'') (users verified_world) = None"
    by (simp add: demo_defs)
  have h10: "find (\<lambda>u. email u = ''a@b.com'') (users verified_world) =
               Some (alice\<lparr>verified := True\<rparr>)"
    by (simp add: demo_defs)
  have h11: "verified (alice\<lparr>verified := True\<rparr>)" by simp
  have h12: "bcrypt_compare demo_env (JNum 1234567) (password_hash (alice\<lparr>verified := True\<rparr>)) =
               None"
    by (simp add: demo_defs)
  note t = login_nonstring_password_distinguishes
    [OF h1 h2 h3 h4 h5 h6 h7 h8 h9 h10 h11 h12, of demo_config]
  show ?thesis using t h1 h4 h7 h9 h10 h12 by blast
qed

text \<open>
  C4. When the record \<open>login\<close> finds has \<open>verified = false\<close>, no response with status 200 (so
  no token) is returned, whatever the password and whatever bcrypt would say; the password
  comparison is not called; and a request that reaches the lookup gets 403
  \<open>email not verified\<close>.
\<close>

theorem login_unverified_no_token:
  assumes "find (\<lambda>u. email u = ne) (users w) = Some u" and "\<not> verified u"
      and "normalizeEmail em = Inr ne"
  shows "(\<forall>body. fst (login C E em password w) \<noteq> Inr (200, body)) \<and>
         BcryptCompare \<notin> set (calls (login C E em password) w) \<and>
         (truthy em \<and> truthy password \<and> isValidEmail (JStr ne) \<and> \<not> fault E OpFindOne \<longrightarrow>
            login C E em password w =
              (Inr (errorResponse 403 ''email not verified''), emit (FindOne ne) w))"
  using assms
  by (auto simp add: login_def io_defs findOne_def compare_def errorResponse_def Let_def split: option.splits)

theorem login_unverified_no_token_witness:
  "find (\<lambda>u. email u = ''a@b.com'') (users pending_world) = Some alice \<and> \<not> verified alice \<and>
   bcrypt_compare demo_env (JStr ''secret1'') (password_hash alice) = Some True \<and>
   login demo_config demo_env (JStr ''a@b.com'') (JStr ''secret1'') pending_world =
     (Inr (errorResponse 403 ''email not verified''), emit (FindOne ''a@b.com'') pending_world) \<and>
   calls (login demo_config demo_env (JStr ''a@b.com'') (JStr ''secret1'')) pending_world =
     [FindOne ''a@b.com'']"
proof -
  have h1: "find (\<lambda>u. email u = ''a@b.com'') (users pending_world) = Some alice"
    by (simp add: demo_defs)
  have h2: "\<not> verified alice" by (simp add: demo_defs)
  have h3: "normalizeEmail (JStr ''a@b.com'') = Inr ''a@b.com''" by (rule demo_email)
  have m: "bcrypt_compare demo_env (JStr ''secret1'') (password_hash alice) = Some True"
    by (simp add: demo_defs)
  have pre: "truthy (JStr ''a@b.com'') \<and> truthy (JStr ''secret1'') \<and>
             isValidEmail (JStr ''a@b.com'') \<and> \<not> fault demo_env OpFindOne"
    by (simp add: demo_email) (simp add: demo_defs)
  note t = login_unverified_no_token [OF h1 h2 h3, of demo_config demo_env "JStr ''secret1''"]
  have a: "login demo_config demo_env (JStr ''a@b.com'') (JStr ''secret1'') pending_world =
     (Inr (errorResponse 403 ''email not verified''), emit (FindOne ''a@b.com'') pending_world)"
    using t pre by blast
  have b: "calls (login demo_config demo_env (JStr ''a@b.com'') (JStr ''secret1'')) pending_world =
     [FindOne ''a@b.com'']"
    by (simp add: calls_def a emit_def)
  show ?thesis using h1 h2 m a b by blast
qed

text \<open>
  C5. For every \<open>logout\<close> request whose bearer token has a valid signature and a non-empty
  \<open>jti\<close>, the token is decoded with expiry ignored (nothing is assumed about \<open>exp\<close>, so an
  expired token is covered), the marker \<open>black_{jti}\<close> is written with TTL \<open>exp - now\<close> when
  that is positive and the configured default otherwise, and the response is ok whether or
  not the write succeeds.
\<close>

theorem logout_blacklists_ignoring_expiry:
  assumes "token \<noteq> []" and "jwt_decode E token = Inr payload"
      and "c_jti payload = Some jti" and "jti \<noteq> []" and "0 \<le> now E"
      and "ttl = (case c_exp payload of
                    None \<Rightarrow> tokenTtlSeconds C
                  | Some e \<Rightarrow> if e - now E > 0 then e - now E else tokenTtlSeconds C)"
  shows "fst (verify E True token w) = Inr payload \<and>
         fst (logout C E (Some (''Bearer '' @ token)) w) = Inr ok_response \<and>
         RedisSetEx (''black_'' @ jti) ttl ''1''
           \<in> set (calls (logout C E (Some (''Bearer '' @ token))) w) \<and>
         users (snd (logout C E (Some (''Bearer '' @ token)) w)) = users w \<and>
         kv (snd (logout C E (Some (''Bearer '' @ token)) w)) =
           (if \<not> fault E OpRedisSetEx
            then (kv w)(''black_'' @ jti \<mapsto> (''1'', now E + ttl)) else kv w)"
  using assms
  by (auto simp add: logout_def io_defs verify_def redis_setEx_def Let_def startsWith_def
      calls_def split: option.splits)

theorem logout_blacklists_ignoring_expiry_witness:
  "jwt_decode demo_env ''t2'' =
     Inr \<lparr>c_sub = 1, c_email = ''a@b.com'', c_jti = Some ''j2'', c_iat = Some 0,
          c_exp = Some 500\<rparr> \<and>
   (500::int) \<le> now demo_env \<and>
   fst (logout demo_config demo_env (Some ''Bearer t2'') empty_world) = Inr ok_response \<and>
   kv (snd (logout demo_config demo_env (Some ''Bearer t2'') empty_world)) ''black_j2'' =
     Some (''1'', 87400) \<and>
   fst (logout demo_config (failing OpRedisSetEx) (Some ''Bearer t2'') empty_world) =
     Inr ok_response \<and>
   kv (snd (logout demo_config (failing OpRedisSetEx) (Some ''Bearer t2'') empty_world))
     ''black_j2'' = None"
proof -
  let ?p = "\<lparr>c_sub = 1, c_email = ''a@b.com'', c_jti = Some ''j2'', c_iat = Some 0,
             c_exp = Some (500::int)\<rparr>"
  have h1: "''t2'' \<noteq> []" by simp
  have h2: "jwt_decode demo_env ''t2'' = Inr ?p" and h2': "jwt_decode (failing opn) ''t2'' = Inr ?p"
    for opn by (simp_all add: demo_defs)
  have h3: "c_jti ?p = Some ''j2''" and h4: "''j2'' \<noteq> []" by simp_all
  have h5: "0 \<le> now demo_env" and h5': "0 \<le> now (failing opn)" for opn
    by (simp_all add: demo_now)
  have h6: "(86400::int) = (case c_exp ?p of None \<Rightarrow> tokenTtlSeconds demo_config
              | Some e \<Rightarrow> if e - now demo_env > 0 then e - now demo_env
                          else tokenTtlSeconds demo_config)"
    and h6': "(86400::int) = (case c_exp ?p of None \<Rightarrow> tokenTtlSeconds demo_config
              | Some e \<Rightarrow> if e - now (failing opn) > 0 then e - now (failing opn)
                          else tokenTtlSeconds demo_config)" for opn
    by (simp_all add: demo_now demo_config_def)
  note t = logout_blacklists_ignoring_expiry [OF h1 h2 h3 h4 h5 h6, of empty_world]
  note t' = logout_blacklists_ignoring_expiry [OF h1 h2' h3 h4 h5' h6', of OpRedisSetEx empty_world]
  have f: "\<not> fault demo_env OpRedisSetEx" and f': "fault (failing OpRedisSetEx) OpRedisSetEx"
    by (simp_all add: demo_defs)
  have a: "fst (logout demo_config demo_env (Some ''Bearer t2'') empty_world) = Inr ok_response"
    using t by simp
  have b: "kv (snd (logout demo_config demo_env (Some ''Bearer t2'') empty_world)) ''black_j2'' =
     Some (''1'', 87400)"
    using t f by (simp add: demo_now)
  have c: "fst (logout demo_config (failing OpRedisSetEx) (Some ''Bearer t2'') empty_world) =
     Inr ok_response"
    using t' by simp
  have d: "kv (snd (logout demo_config (failing OpRedisSetEx) (Some ''Bearer t2'') empty_world))
     ''black_j2'' = None"
    using t' f' by (simp add: empty_world_def)
  have e: "(500::int) \<le> now demo_env" by (simp add: demo_now)
  show ?thesis using h2 e a b c d by blast
qed

text \<open>
  C6. For a guard check of a token with valid signature, unexpired and carrying a non-empty
  \<open>jti\<close>: if the marker lookup throws, the request goes through with the decoded claims as
  identity; if the lookup succeeds and an unexpired marker is stored, the guard answers 401
  \<open>Token revoked\<close>.
\<close>

theorem guard_fail_open_and_revoked:
  assumes "token \<noteq> []" and "jwt_decode E token = Inr payload"
      and "\<forall>e. c_exp payload = Some e \<longrightarrow> now E < e"
      and "c_jti payload = Some jti" and "jti \<noteq> []"
  shows "(fault E OpRedisGet \<longrightarrow>
            authMiddleware E (Some (''Bearer '' @ token)) w =
              (Inr (Next payload),
               w\<lparr>trace := trace w @ [JwtVerify, RedisGet (''black_'' @ jti),
                                      ConsoleError ''Redis error in auth middleware:'']\<rparr>)) \<and>
         (\<not> fault E OpRedisGet \<and> kv w (''black_'' @ jti) = Some (v, expiry) \<and>
          v \<noteq> [] \<and> now E < expiry \<longrightarrow>
            authMiddleware E (Some (''Bearer '' @ token)) w =
              (Inr (Respond (errorResponse 401 ''Token revoked'')),
               w\<lparr>trace := trace w @ [JwtVerify, RedisGet (''black_'' @ jti)]\<rparr>))"
  using assms
  by (auto simp add: authMiddleware_def io_defs verify_def redis_get_def Let_def startsWith_def
      split: option.splits)

theorem guard_fail_open_and_revoked_witness:
  "jwt_decode demo_env ''t1'' =
     Inr \<lparr>c_sub = 1, c_email = ''a@b.com'', c_jti = Some ''j1'', c_iat = Some 0,
          c_exp = Some 2000\<rparr> \<and>
   now demo_env < 2000 \<and> fault (failing OpRedisGet) OpRedisGet \<and>
   fst (authMiddleware (failing OpRedisGet) (Some ''Bearer t1'') empty_world) =
     Inr (Next \<lparr>c_sub = 1, c_email = ''a@b.com'', c_jti = Some ''j1'', c_iat = Some 0,
                 c_exp = Some 2000\<rparr>) \<and>
   fst (authMiddleware demo_env (Some ''Bearer t1'')
          (snd (logout demo_config demo_env (Some ''Bearer t1'') empty_world))) =
     Inr (Respond (errorResponse 401 ''Token revoked''))"
proof -
  let ?p = "\<lparr>c_sub = 1, c_email = ''a@b.com'', c_jti = Some ''j1'', c_iat = Some 0,
             c_exp = Some (2000::int)\<rparr>"
  let ?w = "snd (logout demo_config demo_env (Some ''Bearer t1'') empty_world)"
  have h1: "''t1'' \<noteq> []" by simp
  have h2: "jwt_decode demo_env ''t1'' = Inr ?p" and h2': "jwt_decode (failing opn) ''t1'' = Inr ?p"
    for opn by (simp_all add: demo_defs)
  have h3: "\<forall>e. c_exp ?p = Some e \<longrightarrow> now demo_env < e"
    and h3': "\<forall>e. c_exp ?p = Some e \<longrightarrow> now (failing opn) < e" for opn
    by (simp_all add: demo_now)
  have h4: "c_jti ?p = Some ''j1''" and h5: "''j1'' \<noteq> []" by simp_all
  have f: "\<not> fault demo_env OpRedisGet" and f': "fault (failing OpRedisGet) OpRedisGet"
    by (simp_all add: demo_defs)
  have m: "kv ?w (''black_'' @ ''j1'') = Some (''1'', 2000)" using demo_logout_t1 by simp
  have n: "now demo_env < 2000" by (simp add: demo_now)
  have a: "fst (authMiddleware (failing OpRedisGet) (Some ''Bearer t1'') empty_world) =
             Inr (Next ?p)"
    using guard_fail_open_and_revoked [OF h1 h2' [of OpRedisGet] h3' [of OpRedisGet] h4 h5,
        of empty_world] f' by simp
  have b: "fst (authMiddleware demo_env (Some ''Bearer t1'') ?w) =
             Inr (Respond (errorResponse 401 ''Token revoked''))"
    using guard_fail_open_and_revoked [OF h1 h2 h3 h4 h5, of ?w "''1''" 2000] f m n by simp
  show ?thesis using h2 n f' a b by blast
qed

text \<open>
  C7. For every \<open>forgot-password\<close> request with a valid-format email, the response is the same
  whether or not a user record exists, and it is the success message whenever the lookup
  succeeds. When no record exists, nothing is stored, no mail is handed over, and no call
  other than the lookup (and the log of its failure) is made: no send is attempted.
\<close>

theorem forgot_password_uniform:
  assumes "truthy em" and "normalizeEmail em = Inr ne" and "isValidEmail (JStr ne)"
      and "find (\<lambda>u. email u = ne) (users w1) = None"
      and "find (\<lambda>u. email u = ne) (users w2) = Some u"
  shows "fst (password_forgot C E em w1) = fst (password_forgot C E em w2) \<and>
         (\<not> fault E OpFindOne \<longrightarrow>
            fst (password_forgot C E em w1) =
              Inr (ok_message ''reset code sent if email exists'') \<and>
            fst (password_forgot C E em w2) =
              Inr (ok_message ''reset code sent if email exists'') \<and>
            calls (password_forgot C E em) w1 = [FindOne ne]) \<and>
         kv (snd (password_forgot C E em w1)) = kv w1 \<and>
         outbox (snd (password_forgot C E em w1)) = outbox w1 \<and>
         set (calls (password_forgot C E em) w1) \<subseteq>
           {FindOne ne, ConsoleError ''Forgot password error:''}"
  using assms
  by (auto simp add: password_forgot_def io_defs store_defs)

theorem forgot_password_uniform_witness:
  "truthy (JStr ''a@b.com'') \<and> isValidEmail (JStr ''a@b.com'') \<and>
   find (\<lambda>u. email u = ''a@b.com'') (users empty_world) = None \<and>
   find (\<lambda>u. email u = ''a@b.com'') (users pending_world) = Some alice \<and>
   fst (password_forgot demo_config demo_env (JStr ''a@b.com'') empty_world) =
     Inr (ok_message ''reset code sent if email exists'') \<and>
   fst (password_forgot demo_config demo_env (JStr ''a@b.com'') pending_world) =
     Inr (ok_message ''reset code sent if email exists'') \<and>
   calls (password_forgot demo_config demo_env (JStr ''a@b.com'')) empty_world =
     [FindOne ''a@b.com''] \<and>
   outbox (snd (password_forgot demo_config demo_env (JStr ''a@b.com'') pending_world)) =
     [(''a@b.com'', ''Your password reset code'', ''325000'')]"
proof -
  have h1: "truthy (JStr ''a@b.com'')" by simp
  have h2: "normalizeEmail (JStr ''a@b.com'') = Inr ''a@b.com''"
    and h3: "isValidEmail (JStr ''a@b.com'')" by (rule demo_email)+
  have h4: "\<not> fault demo_env OpFindOne" by (simp add: demo_defs)
  have h5: "find (\<lambda>u. email u = ''a@b.com'') (users empty_world) = None"
    by (simp add: demo_defs)
  have h6: "find (\<lambda>u. email u = ''a@b.com'') (users pending_world) = Some alice"
    by (simp add: demo_defs)
  note t = forgot_password_uniform [OF h1 h2 h3 h5 h6, of demo_config demo_env]
  note code = demo_genCode
  have sent: "outbox (snd (password_forgot demo_config demo_env (JStr ''a@b.com'') pending_world)) =
     [(''a@b.com'', ''Your password reset code'', ''325000'')]"
    by (simp add: password_forgot_def io_defs store_defs code demo_defs string_defs demo_email
        now_def)
  show ?thesis using t h1 h3 h4 h5 h6 sent by blast
qed

text \<open>
  C8 (as amended). For every binary64 value \<open>r\<close> of the random source with \<open>0 \<le> r < 1\<close>,
  \<open>genCode\<close> with length 6 returns a string of exactly six digits, matching \<open>^\d{6}$\<close>, that is
  the decimal form of an integer between 100000 and 999999. The value \<open>100000 + k\<close> is
  produced for every \<open>r\<close> in \<open>[k / 900000, (k + 1 - 2^-33) / 900000)\<close> and only for \<open>r\<close> in
  \<open>[(k - 2^-33) / 900000, (k + 1) / 900000)\<close>: the subintervals have equal length up to the
  rounding of the product and of the sum, not exactly.
\<close>

theorem genCode_six_digits_binary64:
  assumes "fl r = r" and "0 \<le> r" and "r < 1"
  shows "length (genCode r 6) = 6 \<and> test codeRegex (genCode r 6) \<and>
         genCode r 6 = toString (genCode_number r 6) \<and>
         100000 \<le> genCode_number r 6 \<and> genCode_number r 6 \<le> 999999 \<and>
         (\<forall>k. 0 \<le> k \<and> k < 900000 \<longrightarrow>
            (real_of_int k / 900000 \<le> r \<and> r < (real_of_int k + 1 - 2 powi (- 33)) / 900000 \<longrightarrow>
               genCode r 6 = toString (100000 + k)) \<and>
            (genCode r 6 = toString (100000 + k) \<longrightarrow>
               (real_of_int k - 2 powi (- 33)) / 900000 \<le> r \<and> r < (real_of_int k + 1) / 900000))"
proof -
  let ?n = "genCode_number r 6"
  define p where "p = r * 900000"
  have n: "?n = \<lfloor>fl (100000 + fl p)\<rfloor>" by (simp add: genCode_number_6 p_def)
  have p0: "0 \<le> p" using assms(2) by (simp add: p_def)
  have rle: "r \<le> 1 - 2 powi (- 53)" using assms by (rule double_below_one)
  then have pmax: "p \<le> 900000 - 900000 * 2 powi (- 53)" by (simp add: p_def algebra_simps)
  have p9: "p < 900000" using assms(3) by (simp add: p_def)
  have lo: "100000 \<le> ?n" using sum_bounds(1) [OF p0 p9, of 0] p0 by (simp add: n)
  have hi: "?n \<le> 999999"
  proof -
    have e34: "(2::real) powi (- 34) = 1 / 17179869184"
      and e33: "(2::real) powi (- 33) = 1 / 8589934592"
      by (simp_all add: power_int_minus_divide)
    have P: "fl p \<le> 900000 - 1 / 8589934592"
      using product_rounds_below [OF p0 pmax] unfolding e33 .
    have P0: "0 \<le> fl p" using p0 by (rule fl_nonneg)
    define s where "s = 100000 + fl p"
    have s0: "0 < s" and s20: "s < 2 powi (19 + 1)" using P0 P by (simp_all add: s_def)
    have "\<bar>fl s - s\<bar> \<le> 2 powi (- 34)" using fl_err [OF s0 s20] by simp
    then have "fl s - s \<le> 1 / 17179869184" unfolding e34 by linarith
    then have "fl s < 1000000" using P unfolding s_def by linarith
    then have "fl s < of_int 1000000" by simp
    then have "\<lfloor>fl s\<rfloor> < 1000000" by (simp only: floor_less_iff)
    then show ?thesis by (simp add: n s_def)
  qed
  have str: "genCode r 6 = toString_nat (nat ?n)"
    using lo by (simp add: genCode_def toString_def)
  have len: "length (genCode r 6) = 6"
  proof -
    have "100000 \<le> nat ?n" and "nat ?n < 1000000" using lo hi by linarith+
    then have "length (toString_nat (nat ?n)) = Suc 5"
      using toString_nat_length [of 5 "nat ?n"] by simp
    then show ?thesis by (simp add: str)
  qed
  have dig: "\<forall>c \<in> set (genCode r 6). isDigit c"
    unfolding str by (rule toString_nat_digits)
  have re: "test codeRegex (genCode r 6)"
    using len dig by (rule test_codeRegex_six_digits)
  have val: "genCode r 6 = toString (100000 + k) \<longleftrightarrow> ?n = 100000 + k"
    if k: "0 \<le> k \<and> k < 900000" for k
  proof -
    have "genCode r 6 = toString (100000 + k) \<longleftrightarrow>
          toString_nat (nat ?n) = toString_nat (nat (100000 + k))"
      using k by (simp add: str toString_def)
    also have "\<dots> \<longleftrightarrow> nat ?n = nat (100000 + k)"
      by (auto dest: toString_nat_inj)
    also have "\<dots> \<longleftrightarrow> ?n = 100000 + k" using lo k by linarith
    finally show ?thesis .
  qed
  have inside: "genCode r 6 = toString (100000 + k)"
    if k: "0 \<le> k \<and> k < 900000"
      and r: "real_of_int k / 900000 \<le> r \<and> r < (real_of_int k + 1 - 2 powi (- 33)) / 900000"
    for k
  proof -
    have a: "of_int k \<le> p" and b: "p < of_int k + 1 - 2 powi (- 33)"
      using r by (simp_all add: p_def field_simps)
    have "100000 + k \<le> ?n" using sum_bounds(1) [OF p0 p9 a] k by (simp add: n)
    moreover have "?n < 100000 + k + 1" using sum_bounds(2) [OF p0 p9 b] by (simp add: n)
    ultimately have "?n = 100000 + k" by linarith
    then show ?thesis using val [OF k] by simp
  qed
  have outside: "(real_of_int k - 2 powi (- 33)) / 900000 \<le> r \<and> r < (real_of_int k + 1) / 900000"
    if k: "0 \<le> k \<and> k < 900000" and g: "genCode r 6 = toString (100000 + k)" for k
  proof -
    have nk: "?n = 100000 + k" using val [OF k] g by simp
    then have "100000 + k \<le> \<lfloor>fl (100000 + fl p)\<rfloor>" by (simp add: n)
    then have a: "of_int k - 2 powi (- 33) \<le> p" by (rule sum_bounds(3) [OF p0 p9])
    have b: "p < of_int k + 1"
    proof (rule ccontr)
      assume "\<not> p < of_int k + 1"
      then have "of_int (k + 1) \<le> p" by simp
      then have "100000 + (k + 1) \<le> ?n" using sum_bounds(1) [OF p0 p9, of "k + 1"] k by (simp add: n)
      then show False using nk by simp
    qed
    show ?thesis using a b by (simp add: p_def field_simps)
  qed
  show ?thesis using len re lo hi inside outside by (simp add: genCode_def)
qed

theorem genCode_six_digits_binary64_witness:
  "fl (1 / 4) = 1 / 4 \<and> (0::real) \<le> 1 / 4 \<and> (1 / 4 :: real) < 1 \<and>
   length (genCode (1 / 4) 6) = 6 \<and> test codeRegex (genCode (1 / 4) 6) \<and>
   genCode (1 / 4) 6 = ''325000''"
proof -
  have h: "fl (1 / 4) = 1 / 4" by (rule fl_quarter)
  have h0: "(0::real) \<le> 1 / 4" and h1: "(1 / 4 :: real) < 1" by simp_all
  note t = genCode_six_digits_binary64 [OF h h0 h1]
  from t have "\<forall>k. 0 \<le> k \<and> k < 900000 \<longrightarrow>
            (real_of_int k / 900000 \<le> 1 / 4 \<and> 1 / 4 < (real_of_int k + 1 - 2 powi (- 33)) / 900000 \<longrightarrow>
               genCode (1 / 4) 6 = toString (100000 + k))"
    by blast
  from spec [OF this, of 225000] have "genCode (1 / 4) 6 = toString (100000 + 225000)"
    by (simp add: power_int_minus_divide)
  moreover have "toString (100000 + 225000) = ''325000''"
    by (simp add: toString_def toString_nat.simps digit_char_def)
  ultimately have c: "genCode (1 / 4) 6 = ''325000''" by simp
  from t have a: "length (genCode (1 / 4) 6) = 6" and b: "test codeRegex (genCode (1 / 4) 6)"
    by blast+
  show ?thesis by (intro conjI) (rule h h0 h1 a b c)+
qed

text \<open>
  C8 as the specification states it fails: the random value \<open>2251794809685662 / 2^52\<close> lies
  in \<open>[449998 / 900000, 449999 / 900000)\<close>, the subinterval of the value 549998, but the
  product with 900000 rounds up to 449999 and the code is \<open>549999\<close>.
\<close>

theorem genCode_uniform_counterexample:
  "fl (2251794809685662 / 4503599627370496) = 2251794809685662 / 4503599627370496 \<and>
   (0::real) \<le> 2251794809685662 / 4503599627370496 \<and>
   (2251794809685662 / 4503599627370496 :: real) < 1 \<and>
   (449998 / 900000 :: real) \<le> 2251794809685662 / 4503599627370496 \<and>
   (2251794809685662 / 4503599627370496 :: real) < (449998 + 1) / 900000 \<and>
   toString (100000 + 449998) = ''549998'' \<and>
   genCode (2251794809685662 / 4503599627370496) 6 = ''549999''"
proof -
  have "genCode_number (2251794809685662 / 4503599627370496) 6 =
        \<lfloor>fl (100000 + fl (2251794809685662 / 4503599627370496 * 900000))\<rfloor>"
    by (rule genCode_number_6)
  also have "\<dots> = \<lfloor>fl (100000 + 449999)\<rfloor>" by (simp only: fl_product_r0)
  also have "\<dots> = 549999" by (simp add: fl_numeral)
  finally have n: "genCode_number (2251794809685662 / 4503599627370496) 6 = 549999" .
  have s: "toString 549999 = ''549999''"
    by (simp add: toString_def toString_nat.simps digit_char_def)
  have g: "genCode (2251794809685662 / 4503599627370496) 6 = ''549999''"
    by (simp only: genCode_def n s)
  have t: "toString (100000 + 449998) = ''549998''"
    by (simp add: toString_def toString_nat.simps digit_char_def)
  have a: "(0::real) \<le> 2251794809685662 / 4503599627370496"
    and b: "(2251794809685662 / 4503599627370496 :: real) < 1"
    and c: "(449998 / 900000 :: real) \<le> 2251794809685662 / 4503599627370496"
    and d: "(2251794809685662 / 4503599627370496 :: real) < (449998 + 1) / 900000"
    by simp_all
  show ?thesis by (intro conjI) (rule fl_r0 a b c d t g)+
qed

text \<open>
  C9. In the success path of \<open>register-verify\<close> for an unverified user the code deletion is
  issued before the commit. If the commit fails, the response is 500 and the user is still
  unverified; and when the deletion succeeded the stored code is gone, so that no later
  \<open>register-verify\<close> for that email in the resulting state answers ok or changes the user
  table.
\<close>

theorem register_verify_commit_failure:
  assumes "truthy em" and "normalizeEmail em = Inr ne" and "isValidEmail (JStr ne)"
      and "truthy code" and "js_trim code = Inr t" and "test codeRegex t"
      and "\<not> fault E OpRedisGet" and "kv w (''verif_'' @ ne) = Some (t, expiry)"
      and "now E < expiry"
      and "\<not> fault E OpFindOne" and "find (\<lambda>u. email u = ne) (users w) = Some u"
      and "\<not> verified u"
      and "\<not> fault E OpTransaction" and "\<not> fault E OpSave"
      and "fault E OpCommit"
  shows "calls (register_verify E em code) w =
           [RedisGet (''verif_'' @ ne), FindOne ne, Transaction, Save (u\<lparr>verified := True\<rparr>),
            RedisDel (''verif_'' @ ne)] @
           (if fault E OpRedisDel
            then [ConsoleError ''Redis error deleting verification code:''] else []) @
           [Commit, Rollback, ConsoleError ''Register verify error:''] \<and>
         fst (register_verify E em code w) = Inr (errorResponse 500 ''internal server error'') \<and>
         users (snd (register_verify E em code w)) = users w \<and>
         (\<not> fault E OpRedisDel \<longrightarrow>
            kv (snd (register_verify E em code w)) (''verif_'' @ ne) = None \<and>
            (\<forall>E' code'.
               fst (register_verify E' em code' (snd (register_verify E em code w))) \<noteq>
                 Inr ok_response \<and>
               users (snd (register_verify E' em code' (snd (register_verify E em code w)))) =
                 users w))"
proof -
  let ?w' = "snd (register_verify E em code w)"
  have t0: "t \<noteq> []" using assms(6) by (auto simp add: test_def codeRegex_def)
  have a: "calls (register_verify E em code) w =
           [RedisGet (''verif_'' @ ne), FindOne ne, Transaction, Save (u\<lparr>verified := True\<rparr>),
            RedisDel (''verif_'' @ ne)] @
           (if fault E OpRedisDel
            then [ConsoleError ''Redis error deleting verification code:''] else []) @
           [Commit, Rollback, ConsoleError ''Register verify error:'']"
    using assms t0 by (simp add: register_verify_def io_defs store_defs)
  have b: "fst (register_verify E em code w) = Inr (errorResponse 500 ''internal server error'')"
    using assms t0 by (simp add: register_verify_def io_defs store_defs)
  have c: "users ?w' = users w"
    using assms t0 by (simp add: register_verify_def io_defs store_defs)
  have d: "kv ?w' (''verif_'' @ ne) = None" if "\<not> fault E OpRedisDel"
    using assms t0 that by (simp add: register_verify_def io_defs store_defs)
  have e: "fst (register_verify E' em code' ?w') \<noteq> Inr ok_response \<and>
           users (snd (register_verify E' em code' ?w')) = users w"
    if "\<not> fault E OpRedisDel" for E' code'
    using register_verify_no_code [OF assms(2) d [OF that], of E' code'] c by simp
  show ?thesis using a b c d e by blast
qed

theorem register_verify_commit_failure_witness:
  "find (\<lambda>u. email u = ''a@b.com'') (users pending_world) = Some alice \<and> \<not> verified alice \<and>
   kv pending_world ''verif_a@b.com'' = Some (''123456'', 1600) \<and>
   fault (failing OpCommit) OpCommit \<and>
   fst (register_verify (failing OpCommit) (JStr ''a@b.com'') (JStr ''123456'') pending_world) =
     Inr (errorResponse 500 ''internal server error'') \<and>
   users (snd (register_verify (failing OpCommit) (JStr ''a@b.com'') (JStr ''123456'')
                 pending_world)) = [alice] \<and>
   kv (snd (register_verify (failing OpCommit) (JStr ''a@b.com'') (JStr ''123456'')
              pending_world)) ''verif_a@b.com'' = None \<and>
   fst (register_verify demo_env (JStr ''a@b.com'') (JStr ''123456'')
          (snd (register_verify (failing OpCommit) (JStr ''a@b.com'') (JStr ''123456'')
                  pending_world))) \<noteq> Inr ok_response"
proof -
  let ?E = "failing OpCommit"
  have h1: "truthy (JStr ''a@b.com'')" and h4: "truthy (JStr ''123456'')" by simp_all
  have h2: "normalizeEmail (JStr ''a@b.com'') = Inr ''a@b.com''"
    and h3: "isValidEmail (JStr ''a@b.com'')" by (rule demo_email)+
  have h5: "js_trim (JStr ''123456'') = Inr ''123456''" by (simp add: demo_code)
  have h6: "test codeRegex ''123456''" by (rule demo_code)
  have h7: "\<not> fault ?E OpRedisGet" and h10: "\<not> fault ?E OpFindOne"
    and h13: "\<not> fault ?E OpTransaction" and h14: "\<not> fault ?E OpSave"
    and h15: "\<not> fault ?E OpRedisDel" and h16: "fault ?E OpCommit"
    by (simp_all add: demo_defs)
  have h8: "kv pending_world (''verif_'' @ ''a@b.com'') = Some (''123456'', 1600)"
    by (simp add: demo_defs)
  have h9: "now ?E < 1600" by (simp add: demo_now)
  have h11: "find (\<lambda>u. email u = ''a@b.com'') (users pending_world) = Some alice"
    by (simp add: demo_defs)
  have h12: "\<not> verified alice" by (simp add: demo_defs)
  note t = register_verify_commit_failure
    [OF h1 h2 h3 h4 h5 h6 h7 h8 h9 h10 h11 h12 h13 h14 h16]
  have us: "users pending_world = [alice]" by (simp add: demo_defs)
  have k: "kv pending_world ''verif_a@b.com'' = Some (''123456'', 1600)" using h8 by simp
  from t have a: "fst (register_verify ?E (JStr ''a@b.com'') (JStr ''123456'') pending_world) =
     Inr (errorResponse 500 ''internal server error'')" by blast
  from t us have b: "users (snd (register_verify ?E (JStr ''a@b.com'') (JStr ''123456'')
                 pending_world)) = [alice]" by simp
  from t h15 have c: "kv (snd (register_verify ?E (JStr ''a@b.com'') (JStr ''123456'')
              pending_world)) ''verif_a@b.com'' = None" by simp
  from t h15 have d: "fst (register_verify demo_env (JStr ''a@b.com'') (JStr ''123456'')
          (snd (register_verify ?E (JStr ''a@b.com'') (JStr ''123456'')
                  pending_world))) \<noteq> Inr ok_response" by blast
  show ?thesis using h11 h12 k h16 a b c d by blast
qed

text \<open>
  C10. When the code field of a \<open>register-verify\<close> or \<open>reset-password\<close> request is truthy
  but not a string, \<open>code.trim()\<close> throws a TypeError, the response is never the 400
  \<open>invalid code format\<close>, and a request whose other fields pass the checks made before the
  code is examined gets 500 \<open>internal server error\<close>, the world unchanged but for the log.
\<close>

theorem nonstring_code_internal_error:
  assumes "truthy code" and "\<forall>s. code \<noteq> JStr s"
  shows "js_trim code = Inl TypeError \<and>
         fst (register_verify E em code w) \<noteq> Inr (errorResponse 400 ''invalid code format'') \<and>
         fst (password_reset E em code newPassword w) \<noteq>
           Inr (errorResponse 400 ''invalid code format'') \<and>
         (truthy em \<and> normalizeEmail em = Inr ne \<and> isValidEmail (JStr ne) \<longrightarrow>
            register_verify E em code w =
              (Inr (errorResponse 500 ''internal server error''),
               emit (ConsoleError ''Register verify error:'') w)) \<and>
         (truthy em \<and> normalizeEmail em = Inr ne \<and> isValidEmail (JStr ne) \<and>
          truthy newPassword \<and> isValidPassword (toNumber E) newPassword \<longrightarrow>
            password_reset E em code newPassword w =
              (Inr (errorResponse 500 ''internal server error''),
               emit (ConsoleError ''Reset password error:'') w))"
proof -
  have t: "js_trim code = Inl TypeError" using assms(2) by (rule js_trim_not_string)
  have a: "fst (register_verify E em code w) \<noteq> Inr (errorResponse 400 ''invalid code format'')"
    using assms(1) t
    by (simp add: register_verify_def io_defs errorResponse_def split: sum.splits)
  have b: "fst (password_reset E em code newPassword w) \<noteq>
             Inr (errorResponse 400 ''invalid code format'')"
    using assms(1) t
    by (simp add: password_reset_def io_defs errorResponse_def split: sum.splits)
  have c: "truthy em \<and> normalizeEmail em = Inr ne \<and> isValidEmail (JStr ne) \<longrightarrow>
            register_verify E em code w =
              (Inr (errorResponse 500 ''internal server error''),
               emit (ConsoleError ''Register verify error:'') w)"
    using assms(1) t by (simp add: register_verify_def io_defs)
  have d: "truthy em \<and> normalizeEmail em = Inr ne \<and> isValidEmail (JStr ne) \<and>
          truthy newPassword \<and> isValidPassword (toNumber E) newPassword \<longrightarrow>
            password_reset E em code newPassword w =
              (Inr (errorResponse 500 ''internal server error''),
               emit (ConsoleError ''Reset password error:'') w)"
    using assms(1) t by (simp add: password_reset_def io_defs)
  show ?thesis using t a b c d by blast
qed

theorem nonstring_code_internal_error_witness:
  "truthy (JNum 123456) \<and> truthy (JStr ''a@b.com'') \<and> isValidEmail (JStr ''a@b.com'') \<and>
   truthy (JStr ''secret2'') \<and> isValidPassword (toNumber demo_env) (JStr ''secret2'') \<and>
   js_trim (JNum 123456) = Inl TypeError \<and>
   fst (register_verify demo_env (JStr ''a@b.com'') (JNum 123456) pending_world) =
     Inr (errorResponse 500 ''internal server error'') \<and>
   fst (password_reset demo_env (JStr ''a@b.com'') (JNum 123456) (JStr ''secret2'')
          pending_world) = Inr (errorResponse 500 ''internal server error'')"
proof -
  have h1: "truthy (JNum 123456)" by simp
  have h2: "\<forall>s. JNum 123456 \<noteq> JStr s" by simp
  have e1: "truthy (JStr ''a@b.com'')" and p1: "truthy (JStr ''secret2'')" by simp_all
  have e2: "normalizeEmail (JStr ''a@b.com'') = Inr ''a@b.com''"
    and e3: "isValidEmail (JStr ''a@b.com'')" by (rule demo_email)+
  have p2: "isValidPassword (toNumber demo_env) (JStr ''secret2'')"
    by (simp add: isValidPassword_def)
  note t = nonstring_code_internal_error [OF h1 h2, of demo_env "JStr ''a@b.com''" pending_world
      "JStr ''secret2''" "''a@b.com''"]
  from t have a: "js_trim (JNum 123456) = Inl TypeError" by blast
  from t e1 e2 e3 have b:
    "fst (register_verify demo_env (JStr ''a@b.com'') (JNum 123456) pending_world) =
       Inr (errorResponse 500 ''internal server error'')" by simp
  from t e1 e2 e3 p1 p2 have c:
    "fst (password_reset demo_env (JStr ''a@b.com'') (JNum 123456) (JStr ''secret2'')
          pending_world) = Inr (errorResponse 500 ''internal server error'')" by simp
  show ?thesis using h1 e1 e3 p1 p2 a b c by blast
qed

end
